theory Spec2Isabelle
  imports
    Main
    "HOL-Library.Char_ord"
    "HOL-Library.List_Lexorder"
    "HOL-Library.Multiset"
    "HOL-Library.Word"
begin

section \<open>Entity model (types.ts)\<close>

text \<open>
  Identifiers and texts are JavaScript strings; they are modelled as \<open>string\<close>, one
  \<open>char\<close> per code unit. Timestamps (\<open>Date.now()\<close>) are integers, sizes are naturals,
  a field of type \<open>T | null\<close> is a \<open>T option\<close>.
\<close>

record profile =
  pId :: string
  displayName :: string
  avatarColor :: string
  pCreatedAt :: int
  pUpdatedAt :: int

datatype chatType = Dm | Group

record chat =
  cId :: string
  cType :: chatType
  title :: "string option"
  createdByProfileId :: string
  cCreatedAt :: int
  updatedAt :: int
  lastMessageAt :: "int option"

datatype membershipRole = Owner | Member

record chatMembership =
  mId :: string
  mChatId :: string
  mProfileId :: string
  role :: membershipRole
  joinedAt :: int
  leftAt :: "int option"

datatype messageType = MText | MSystem | MFile | MImage | MMixed

record message =
  msgId :: string
  msgChatId :: string
  senderProfileId :: string
  msgType :: messageType
  msgText :: "string option"
  attachmentIds :: "string list"
  msgCreatedAt :: int

datatype attachmentKind = AImage | AFile

record attachmentMeta =
  aId :: string
  aMessageId :: string
  aChatId :: string
  kind :: attachmentKind
  fileName :: string
  mimeType :: string
  sizeBytes :: nat
  blobKey :: string
  aCreatedAt :: int

text \<open>A browser \<open>File\<close>: its name, MIME type, size and bytes.\<close>

record jsFile =
  fName :: string
  fType :: string
  fSize :: nat
  fBytes :: "8 word list"

record attachmentWithBlob = attachmentMeta +
  blob :: jsFile

record messageWithAttachments = message +
  attachments :: "attachmentWithBlob list"

record chatListItem =
  liChat :: chat
  liTitle :: string
  liSubtitle :: string
  liLastMessageAt :: "int option"
  memberCount :: nat

record sendMessageInput =
  inChatId :: string
  inSenderProfileId :: string
  inText :: string
  inFiles :: "jsFile list"

record createGroupInput =
  giTitle :: string
  ownerProfileId :: string
  memberProfileIds :: "string list"

record fileLimitConfig =
  maxFileBytes :: nat
  maxTotalBytes :: nat

record validationResult =
  ok :: bool
  reason :: "string option"

datatype error = Error string

section \<open>The object stores (IndexedDB)\<close>

text \<open>
  An object store holds at most one record per key and \<open>getAll\<close> returns the records in
  ascending key order. A store is the list of its records in that order; \<open>put\<close> inserts
  a record or replaces the one with the same key. The blob store has out-of-line keys, so
  its records are pairs of key and file.
\<close>

definition put :: "('a \<Rightarrow> string) \<Rightarrow> 'a \<Rightarrow> 'a list \<Rightarrow> 'a list" where
  "put key r store = insort_key key r (filter (\<lambda>x. key x \<noteq> key r) store)"

definition getByKey :: "('a \<Rightarrow> string) \<Rightarrow> string \<Rightarrow> 'a list \<Rightarrow> 'a option" where
  "getByKey key k store = find (\<lambda>x. key x = k) store"

record db =
  profiles :: "profile list"
  chats :: "chat list"
  memberships :: "chatMembership list"
  messages :: "message list"
  attachmentsMeta :: "attachmentMeta list"
  attachmentsBlob :: "(string \<times> jsFile) list"

definition emptyDb :: db where
  "emptyDb = \<lparr>profiles = [], chats = [], memberships = [], messages = [],
     attachmentsMeta = [], attachmentsBlob = []\<rparr>"

section \<open>Helpers (utils.ts and the end of repository.ts)\<close>

text \<open>
  \<open>createId\<close> joins the prefix and a random UUID. The random part is an input of the
  model: an operation takes \<open>rand :: nat \<Rightarrow> string\<close>, whose \<open>k\<close>-th value is the
  UUID drawn by its \<open>k\<close>-th call of \<open>createId\<close>, and \<open>now\<close>, the value of \<open>Date.now()\<close>.
\<close>

definition createId :: "string \<Rightarrow> string \<Rightarrow> string" where
  "createId prefix uuid = prefix @ ''_'' @ uuid"

definition COLORS :: "string list" where
  "COLORS = [''#0ea5e9'', ''#10b981'', ''#f59e0b'', ''#ef4444'',
             ''#6366f1'', ''#14b8a6'', ''#f97316'', ''#22c55e'']"

text \<open>The hash is kept in 32 bits by \<open>hash |= 0\<close>; \<open>Math.abs\<close> is taken of its signed value.\<close>

definition hashStep :: "32 word \<Rightarrow> char \<Rightarrow> 32 word" where
  "hashStep hash c = push_bit 5 hash - hash + of_nat (of_char c)"

definition pickAvatarColor :: "string \<Rightarrow> string" where
  "pickAvatarColor seed =
     COLORS ! (nat \<bar>sint (foldl hashStep 0 seed)\<bar> mod length COLORS)"

definition startsWith :: "string \<Rightarrow> string \<Rightarrow> bool" where
  "startsWith s p = (take (length p) s = p)"

definition isImageMime :: "string \<Rightarrow> bool" where
  "isImageMime m = startsWith m ''image/''"

text \<open>
  \<open>String.prototype.trim\<close> removes white space and line terminators at both ends; of
  these, the code units below 256 are tab, line feed, vertical tab, form feed, carriage
  return, space and no-break space.
\<close>

definition isSpace :: "char \<Rightarrow> bool" where
  "isSpace c = (of_char c \<in> {9, 10, 11, 12, 13, 32, 160 :: nat})"

definition trim :: "string \<Rightarrow> string" where
  "trim s = rev (dropWhile isSpace (rev (dropWhile isSpace s)))"

definition deriveMessageType :: "string \<Rightarrow> jsFile list \<Rightarrow> messageType" where
  "deriveMessageType txt files =
     (if length files = 0 then MText
      else if length files = 1 \<and> txt = [] then
        (if isImageMime (fType (files ! 0)) then MImage else MFile)
      else MMixed)"

text \<open>
  \<open>groupBy\<close> builds a \<open>Map\<close> from key to the items with that key, in their order.
\<close>

definition groupStep :: "('a \<Rightarrow> 'k) \<Rightarrow> 'a \<Rightarrow> ('k \<rightharpoonup> 'a list) \<Rightarrow> ('k \<rightharpoonup> 'a list)" where
  "groupStep keySelector item m =
     (case m (keySelector item) of
        Some arr \<Rightarrow> m(keySelector item \<mapsto> arr @ [item])
      | None \<Rightarrow> m(keySelector item \<mapsto> [item]))"

definition groupBy :: "('a \<Rightarrow> 'k) \<Rightarrow> 'a list \<Rightarrow> ('k \<rightharpoonup> 'a list)" where
  "groupBy keySelector items = fold (groupStep keySelector) items Map.empty"

text \<open>\<open>map.get(k) ?? []\<close>.\<close>

definition getOrEmpty :: "('k \<rightharpoonup> 'a list) \<Rightarrow> 'k \<Rightarrow> 'a list" where
  "getOrEmpty m k = (case m k of Some arr \<Rightarrow> arr | None \<Rightarrow> [])"

text \<open>
  \<open>Array.prototype.sort\<close> with a comparator is stable; for a consistent comparator its
  result is the one of a stable insertion sort.
\<close>

fun insertBy :: "('a \<Rightarrow> 'a \<Rightarrow> int) \<Rightarrow> 'a \<Rightarrow> 'a list \<Rightarrow> 'a list" where
  "insertBy cmp x [] = [x]"
| "insertBy cmp x (y # ys) = (if cmp x y \<le> 0 then x # y # ys else y # insertBy cmp x ys)"

definition sortBy :: "('a \<Rightarrow> 'a \<Rightarrow> int) \<Rightarrow> 'a list \<Rightarrow> 'a list" where
  "sortBy cmp xs = foldr (insertBy cmp) xs []"

text \<open>\<open>[...new Set(xs)]\<close>: the distinct elements, each at its first occurrence.\<close>

definition uniq :: "'a list \<Rightarrow> 'a list" where
  "uniq xs = rev (remdups (rev xs))"

text \<open>\<open>new Map(pairs)\<close>: a later pair replaces an earlier one with the same key.\<close>

definition mapOf :: "('k \<times> 'v) list \<Rightarrow> ('k \<rightharpoonup> 'v)" where
  "mapOf pairs = fold (\<lambda>kv m. m(fst kv \<mapsto> snd kv)) pairs Map.empty"

section \<open>The repository (storage/repository.ts)\<close>

text \<open>
  Each operation takes the database and returns it updated. A \<open>throw\<close> is the result
  \<open>Inl\<close>. The change events published on the sync bus are not part of the stores and
  are left out.
\<close>

definition limits :: fileLimitConfig where
  "limits = \<lparr>maxFileBytes = 10 * 1024 * 1024, maxTotalBytes = 100 * 1024 * 1024\<rparr>"

text \<open>
  The profiles sorted by name. \<open>localeCompare\<close> depends on the locale of the browser;
  it is taken here as the order of the code units, which differs from it on names of
  mixed case. The repository itself uses the list only to build maps keyed by profile id.
\<close>

definition getProfiles :: "db \<Rightarrow> profile list" where
  "getProfiles s = sort_key displayName (profiles s)"

definition createProfile :: "int \<Rightarrow> (nat \<Rightarrow> string) \<Rightarrow> string \<Rightarrow> db \<Rightarrow> profile \<times> db" where
  "createProfile now rand name s =
     (let profile = \<lparr>pId = createId ''profile'' (rand 0), displayName = trim name,
            avatarColor = pickAvatarColor name, pCreatedAt = now, pUpdatedAt = now\<rparr>
      in (profile, s\<lparr>profiles := put pId profile (profiles s)\<rparr>))"

definition getProfileById :: "string \<Rightarrow> db \<Rightarrow> profile option" where
  "getProfileById profileId s = getByKey pId profileId (profiles s)"

definition getChat :: "string \<Rightarrow> db \<Rightarrow> chat option" where
  "getChat chatId s = getByKey cId chatId (chats s)"

definition getMembershipsByChat :: "string \<Rightarrow> db \<Rightarrow> chatMembership list" where
  "getMembershipsByChat chatId s = filter (\<lambda>m. mChatId m = chatId) (memberships s)"

definition isExistingDm :: "string \<Rightarrow> string \<Rightarrow> (string \<rightharpoonup> chatMembership list) \<Rightarrow> chat \<Rightarrow> bool" where
  "isExistingDm a b membersByChat c =
     (cType c = Dm \<and>
      (let members = getOrEmpty membersByChat (cId c);
           ids = sort (map mProfileId members)
       in length ids = 2 \<and> ids ! 0 = sort [a, b] ! 0 \<and> ids ! 1 = sort [a, b] ! 1))"

definition findExistingDm :: "string \<Rightarrow> string \<Rightarrow> db \<Rightarrow> chat option" where
  "findExistingDm a b s =
     (let active = filter (\<lambda>m. leftAt m = None) (memberships s);
          membersByChat = groupBy mChatId active
      in find (isExistingDm a b membersByChat) (chats s))"

definition createDm :: "int \<Rightarrow> (nat \<Rightarrow> string) \<Rightarrow> string \<Rightarrow> string \<Rightarrow> db \<Rightarrow> chat \<times> db" where
  "createDm now rand activeProfileId otherProfileId s =
     (case findExistingDm activeProfileId otherProfileId s of
        Some existing \<Rightarrow> (existing, s)
      | None \<Rightarrow>
          (let c = \<lparr>cId = createId ''chat'' (rand 0), cType = Dm, title = None,
                 createdByProfileId = activeProfileId, cCreatedAt = now, updatedAt = now,
                 lastMessageAt = None\<rparr>;
               ms = map (\<lambda>(profileId, index).
                      \<lparr>mId = createId ''membership'' (rand (Suc index)), mChatId = cId c,
                       mProfileId = profileId,
                       role = (if index = 0 then Owner else Member),
                       joinedAt = now, leftAt = None\<rparr>)
                    (zip [activeProfileId, otherProfileId] [0, 1])
           in (c, s\<lparr>chats := put cId c (chats s),
                     memberships := fold (put mId) ms (memberships s)\<rparr>)))"

definition createGroup :: "int \<Rightarrow> (nat \<Rightarrow> string) \<Rightarrow> createGroupInput \<Rightarrow> db \<Rightarrow> chat \<times> db" where
  "createGroup now rand input s =
     (let uniqueMembers = uniq (ownerProfileId input # memberProfileIds input);
          c = \<lparr>cId = createId ''chat'' (rand 0), cType = Group,
               title = Some (if trim (giTitle input) = [] then ''Untitled Group''
                             else trim (giTitle input)),
               createdByProfileId = ownerProfileId input, cCreatedAt = now,
               updatedAt = now, lastMessageAt = Some now\<rparr>;
          ms = map (\<lambda>(profileId, index).
                 \<lparr>mId = createId ''membership'' (rand (Suc index)), mChatId = cId c,
                  mProfileId = profileId,
                  role = (if profileId = ownerProfileId input then Owner else Member),
                  joinedAt = now, leftAt = None\<rparr>)
               (zip uniqueMembers [0 ..< length uniqueMembers]);
          systemMessage = \<lparr>msgId = createId ''msg'' (rand (Suc (length uniqueMembers))),
               msgChatId = cId c, senderProfileId = ownerProfileId input,
               msgType = MSystem, msgText = Some ''Group created'', attachmentIds = [],
               msgCreatedAt = now\<rparr>
      in (c, s\<lparr>chats := put cId c (chats s),
                memberships := fold (put mId) ms (memberships s),
                messages := put msgId systemMessage (messages s)\<rparr>))"

text \<open>
  The chat record is written back with the new timestamps when it exists
  (\<open>if (existingChat) ...\<close>), as the last step of three of the operations.
\<close>

definition touchChat :: "int \<Rightarrow> chat option \<Rightarrow> chat list \<Rightarrow> chat list" where
  "touchChat now existingChat store =
     (case existingChat of
        Some c \<Rightarrow> put cId (c\<lparr>updatedAt := now, lastMessageAt := Some now\<rparr>) store
      | None \<Rightarrow> store)"

text \<open>
  One round of the loop of \<open>addGroupMembers\<close>; \<open>k\<close> counts the calls of \<open>createId\<close>
  made so far.
\<close>

definition addMemberStep ::
  "int \<Rightarrow> (nat \<Rightarrow> string) \<Rightarrow> string \<Rightarrow> string \<Rightarrow> string set \<Rightarrow> (string \<rightharpoonup> string) \<Rightarrow>
   string \<Rightarrow> nat \<times> db \<Rightarrow> nat \<times> db" where
  "addMemberStep now rand chatId actorProfileId activeMemberSet namesById profileId ks =
     (if profileId \<in> activeMemberSet then ks
      else
        (let k = fst ks; s = snd ks;
             membership = \<lparr>mId = createId ''membership'' (rand k), mChatId = chatId,
                mProfileId = profileId, role = Member, joinedAt = now, leftAt = None\<rparr>;
             msg = \<lparr>msgId = createId ''msg'' (rand (Suc k)), msgChatId = chatId,
                senderProfileId = actorProfileId, msgType = MSystem,
                msgText = Some ((case namesById profileId of Some n \<Rightarrow> n | None \<Rightarrow> ''User'')
                                @ '' was added to the group''),
                attachmentIds = [], msgCreatedAt = now\<rparr>
         in (k + 2, s\<lparr>memberships := put mId membership (memberships s),
                       messages := put msgId msg (messages s)\<rparr>)))"

definition addGroupMembers ::
  "int \<Rightarrow> (nat \<Rightarrow> string) \<Rightarrow> string \<Rightarrow> string \<Rightarrow> string list \<Rightarrow> db \<Rightarrow> db" where
  "addGroupMembers now rand chatId actorProfileId profileIds s =
     (let ids = uniq profileIds in
      if length ids = 0 then s
      else
        (let currentMemberships = getMembershipsByChat chatId s;
             existingChat = getChat chatId s;
             activeMemberSet =
               set (map mProfileId (filter (\<lambda>m. leftAt m = None) currentMemberships));
             namesById = mapOf (map (\<lambda>p. (pId p, displayName p)) (getProfiles s));
             s1 = snd (fold (addMemberStep now rand chatId actorProfileId activeMemberSet
                               namesById) ids (0, s))
         in s1\<lparr>chats := touchChat now existingChat (chats s1)\<rparr>))"

definition leaveGroup :: "int \<Rightarrow> (nat \<Rightarrow> string) \<Rightarrow> string \<Rightarrow> string \<Rightarrow> db \<Rightarrow> db" where
  "leaveGroup now rand chatId profileId s =
     (case find (\<lambda>m. mProfileId m = profileId \<and> leftAt m = None)
             (getMembershipsByChat chatId s) of
        None \<Rightarrow> s
      | Some active \<Rightarrow>
          (let profile = getProfileById profileId s;
               existingChat = getChat chatId s;
               msg = \<lparr>msgId = createId ''msg'' (rand 0), msgChatId = chatId,
                  senderProfileId = profileId, msgType = MSystem,
                  msgText = Some ((case profile of Some p \<Rightarrow> displayName p | None \<Rightarrow> ''User'')
                                  @ '' left the group''),
                  attachmentIds = [], msgCreatedAt = now\<rparr>
           in s\<lparr>memberships := put mId (active\<lparr>leftAt := Some now\<rparr>) (memberships s),
                 messages := put msgId msg (messages s),
                 chats := touchChat now existingChat (chats s)\<rparr>))"

definition canProfileAccessChat :: "string \<Rightarrow> string \<Rightarrow> db \<Rightarrow> bool" where
  "canProfileAccessChat profileId chatId s =
     list_ex (\<lambda>m. mProfileId m = profileId \<and> leftAt m = None) (getMembershipsByChat chatId s)"

text \<open>
  The title and the subtitle of one entry of the chat list, as the \<open>map\<close> callback of
  \<open>getVisibleChatsForProfile\<close> derives them.
\<close>

definition byCreatedAt :: "message \<Rightarrow> message \<Rightarrow> int" where
  "byCreatedAt a b = msgCreatedAt a - msgCreatedAt b"

definition chatListItemOf ::
  "string \<Rightarrow> (string \<rightharpoonup> profile) \<Rightarrow> (string \<rightharpoonup> chatMembership list) \<Rightarrow>
   (string \<rightharpoonup> message list) \<Rightarrow> chat \<Rightarrow> chatListItem" where
  "chatListItemOf profileId profilesById membershipByChat messagesByChat c =
     (let chatMembers = getOrEmpty membershipByChat (cId c);
          chatMessages = sortBy byCreatedAt (getOrEmpty messagesByChat (cId c));
          lastMessage = (if chatMessages = [] then None else Some (last chatMessages));
          t = (if cType c = Dm then
                 (case find (\<lambda>m. mProfileId m \<noteq> profileId) chatMembers of
                    Some other \<Rightarrow>
                      (case profilesById (mProfileId other) of
                         Some p \<Rightarrow> displayName p
                       | None \<Rightarrow> ''Unknown'')
                  | None \<Rightarrow> ''DM'')
               else (case title c of Some x \<Rightarrow> x | None \<Rightarrow> ''DM''));
          subtitle =
            (case lastMessage of
               None \<Rightarrow> ''No messages yet''
             | Some m \<Rightarrow>
                 (if msgType m = MSystem then
                    (case msgText m of Some x \<Rightarrow> x | None \<Rightarrow> ''System'')
                  else
                    (case msgText m of
                       Some x \<Rightarrow>
                         (if trim x \<noteq> [] then trim x
                          else if length (attachmentIds m) > 0 then ''Attachment''
                          else ''Message'')
                     | None \<Rightarrow>
                         (if length (attachmentIds m) > 0 then ''Attachment''
                          else ''Message''))))
      in \<lparr>liChat = c, liTitle = t, liSubtitle = subtitle,
          liLastMessageAt = lastMessageAt c, memberCount = length chatMembers\<rparr>)"

text \<open>\<open>x.lastMessageAt ?? x.chat.updatedAt\<close>.\<close>

definition activityOf :: "chatListItem \<Rightarrow> int" where
  "activityOf x = (case liLastMessageAt x of Some t \<Rightarrow> t | None \<Rightarrow> updatedAt (liChat x))"

definition byActivityDesc :: "chatListItem \<Rightarrow> chatListItem \<Rightarrow> int" where
  "byActivityDesc a b = activityOf b - activityOf a"

definition getVisibleChatsForProfile :: "string \<Rightarrow> db \<Rightarrow> chatListItem list" where
  "getVisibleChatsForProfile profileId s =
     (let profilesById = mapOf (map (\<lambda>p. (pId p, p)) (getProfiles s));
          activeMemberships = filter (\<lambda>m. leftAt m = None) (memberships s);
          visibleChatIds =
            set (map mChatId (filter (\<lambda>m. mProfileId m = profileId) activeMemberships));
          membershipByChat = groupBy mChatId activeMemberships;
          messagesByChat = groupBy msgChatId (messages s)
      in sortBy byActivityDesc
           (map (chatListItemOf profileId profilesById membershipByChat messagesByChat)
              (filter (\<lambda>c. cId c \<in> visibleChatIds) (chats s))))"

text \<open>
  The blob of a key: \<open>getByKey(db, STORE_ATTACH_BLOB, key)\<close>; \<open>undefined\<close> is \<open>None\<close>.
\<close>

definition getBlob :: "string \<Rightarrow> db \<Rightarrow> jsFile option" where
  "getBlob key s = map_option snd (getByKey fst key (attachmentsBlob s))"

text \<open>\<open>{ ...meta, blob }\<close> and \<open>{ ...message, attachments }\<close>.\<close>

definition withBlob :: "attachmentMeta \<Rightarrow> jsFile \<Rightarrow> attachmentWithBlob" where
  "withBlob meta b = attachmentMeta.extend meta (attachmentWithBlob.fields b)"

definition withAttachments :: "message \<Rightarrow> attachmentWithBlob list \<Rightarrow> messageWithAttachments" where
  "withAttachments m atts = message.extend m (messageWithAttachments.fields atts)"

definition resolveAttachments :: "db \<Rightarrow> attachmentMeta list \<Rightarrow> attachmentWithBlob list" where
  "resolveAttachments s metas =
     List.map_filter (\<lambda>meta. map_option (withBlob meta) (getBlob (blobKey meta) s)) metas"

definition getMessages :: "string \<Rightarrow> db \<Rightarrow> messageWithAttachments list" where
  "getMessages chatId s =
     (let inChat = sortBy byCreatedAt (filter (\<lambda>m. msgChatId m = chatId) (messages s));
          metaByMessage =
            groupBy aMessageId (filter (\<lambda>meta. aChatId meta = chatId) (attachmentsMeta s))
      in map (\<lambda>m. withAttachments m (resolveAttachments s (getOrEmpty metaByMessage (msgId m))))
           inChat)"

definition validateFile :: "jsFile \<Rightarrow> validationResult" where
  "validateFile f =
     (if fSize f > maxFileBytes limits then
        \<lparr>ok = False, reason = Some (''File \"'' @ fName f @ ''\" is larger than 10 MB.'')\<rparr>
      else \<lparr>ok = True, reason = None\<rparr>)"

definition getTotalAttachmentBytes :: "db \<Rightarrow> nat" where
  "getTotalAttachmentBytes s = foldl (\<lambda>sum meta. sum + sizeBytes meta) 0 (attachmentsMeta s)"

text \<open>
  One round of the loop that stores the files of a message: the identifier of the
  attachment is pushed on the message's list, its metadata and its blob are put.
\<close>

definition newAttachmentMeta ::
  "int \<Rightarrow> string \<Rightarrow> string \<Rightarrow> jsFile \<Rightarrow> string \<Rightarrow> attachmentMeta" where
  "newAttachmentMeta now messageId chatId f attachmentId =
     \<lparr>aId = attachmentId, aMessageId = messageId, aChatId = chatId,
      kind = (if isImageMime (fType f) then AImage else AFile),
      fileName = fName f,
      mimeType = (if fType f \<noteq> [] then fType f else ''application/octet-stream''),
      sizeBytes = fSize f, blobKey = ''blob_'' @ attachmentId, aCreatedAt = now\<rparr>"

definition attachFile ::
  "int \<Rightarrow> string \<Rightarrow> string \<Rightarrow> jsFile \<times> string \<Rightarrow> string list \<times> db \<Rightarrow> string list \<times> db" where
  "attachFile now messageId chatId fu acc =
     (let f = fst fu; attachmentId = createId ''att'' (snd fu);
          meta = newAttachmentMeta now messageId chatId f attachmentId;
          s = snd acc
      in (fst acc @ [attachmentId],
          s\<lparr>attachmentsMeta := put aId meta (attachmentsMeta s),
            attachmentsBlob := put fst (blobKey meta, f) (attachmentsBlob s)\<rparr>))"

definition sendMessage ::
  "int \<Rightarrow> (nat \<Rightarrow> string) \<Rightarrow> sendMessageInput \<Rightarrow> db \<Rightarrow> (error + message) \<times> db" where
  "sendMessage now rand input s =
     (let txt = trim (inText input) in
      if txt = [] \<and> length (inFiles input) = 0 then
        (Inl (Error ''Cannot send an empty message''), s)
      else
        (case find (\<lambda>f. \<not> ok (validateFile f)) (inFiles input) of
           Some f \<Rightarrow>
             (Inl (Error (case reason (validateFile f) of
                            Some r \<Rightarrow> r | None \<Rightarrow> ''Invalid file'')), s)
         | None \<Rightarrow>
             (let totalAttachmentBytes = foldl (\<lambda>sum f. sum + fSize f) 0 (inFiles input);
                  totalStored = getTotalAttachmentBytes s
              in if totalStored + totalAttachmentBytes > maxTotalBytes limits then
                   (Inl (Error ''Attachment storage limit reached. Delete data or use smaller files.''), s)
                 else
                   (let messageId = createId ''msg'' (rand 0);
                        messageType = deriveMessageType txt (inFiles input);
                        existingChat = getChat (inChatId input) s;
                        stored = fold (attachFile now messageId (inChatId input))
                                   (zip (inFiles input)
                                      (map rand [1 ..< Suc (length (inFiles input))]))
                                   ([], s);
                        m = \<lparr>msgId = messageId, msgChatId = inChatId input,
                             senderProfileId = inSenderProfileId input, msgType = messageType,
                             msgText = (if txt \<noteq> [] then Some txt else None),
                             attachmentIds = fst stored, msgCreatedAt = now\<rparr>;
                        s1 = snd stored
                    in (Inr m, s1\<lparr>messages := put msgId m (messages s1),
                                  chats := touchChat now existingChat (chats s1)\<rparr>)))))"

section \<open>Properties of states\<close>

text \<open>The active memberships of a profile in a chat, and the invariant on them.\<close>

definition activeMembershipsOf :: "string \<Rightarrow> string \<Rightarrow> db \<Rightarrow> chatMembership list" where
  "activeMembershipsOf chatId profileId s =
     filter (\<lambda>m. mChatId m = chatId \<and> mProfileId m = profileId \<and> leftAt m = None)
       (memberships s)"

definition activePairs :: "chatMembership list \<Rightarrow> (string \<times> string) list" where
  "activePairs ms = map (\<lambda>m. (mChatId m, mProfileId m)) (filter (\<lambda>m. leftAt m = None) ms)"

text \<open>No pair of a chat and a profile has two active memberships.\<close>

definition oneActivePerPair :: "db \<Rightarrow> bool" where
  "oneActivePerPair s = distinct (activePairs (memberships s))"

text \<open>
  The states reached from \<open>s0\<close> by the operations of the repository. The identifier
  that \<open>createId\<close> draws for a new chat is random, hence not the chat of any stored
  membership; \<open>createDm\<close> is called for two different profiles (the dialog that calls
  it offers every profile but the active one).
\<close>

inductive reach :: "db \<Rightarrow> db \<Rightarrow> bool" for s0 :: db where
  reach_init: "reach s0 s0"
| reach_createProfile:
    "reach s0 s \<Longrightarrow> reach s0 (snd (createProfile now rand name s))"
| reach_createDm:
    "reach s0 s \<Longrightarrow> a \<noteq> b \<Longrightarrow> createId ''chat'' (rand 0) \<notin> mChatId ` set (memberships s)
     \<Longrightarrow> reach s0 (snd (createDm now rand a b s))"
| reach_createGroup:
    "reach s0 s \<Longrightarrow> createId ''chat'' (rand 0) \<notin> mChatId ` set (memberships s)
     \<Longrightarrow> reach s0 (snd (createGroup now rand input s))"
| reach_addGroupMembers:
    "reach s0 s \<Longrightarrow> reach s0 (addGroupMembers now rand chatId actor profileIds s)"
| reach_leaveGroup:
    "reach s0 s \<Longrightarrow> reach s0 (leaveGroup now rand chatId profileId s)"
| reach_sendMessage:
    "reach s0 s \<Longrightarrow> reach s0 (snd (sendMessage now rand input s))"

text \<open>The last activity of a chat: \<open>lastMessageAt\<close>, or \<open>updatedAt\<close> when that is null.\<close>

definition effectiveActivity :: "chat \<Rightarrow> int" where
  "effectiveActivity c = (case lastMessageAt c of Some t \<Rightarrow> t | None \<Rightarrow> updatedAt c)"

text \<open>What a stored attachment shows of its file: name, MIME type, size and content.\<close>

definition attachmentView :: "attachmentWithBlob \<Rightarrow> string \<times> string \<times> nat \<times> jsFile" where
  "attachmentView a = (fileName a, mimeType a, sizeBytes a, blob a)"

definition fileView :: "jsFile \<Rightarrow> string \<times> string \<times> nat \<times> jsFile" where
  "fileView f =
     (fName f, (if fType f = [] then ''application/octet-stream'' else fType f), fSize f, f)"

section \<open>Sample data\<close>

definition demoRand :: "nat \<Rightarrow> string" where
  "demoRand k = replicate (Suc k) CHR ''u''"

definition demoImage :: jsFile where
  "demoImage = \<lparr>fName = ''cat.png'', fType = ''image/png'', fSize = 3, fBytes = [137, 80, 78]\<rparr>"

definition demoUntyped :: jsFile where
  "demoUntyped = \<lparr>fName = ''notes'', fType = [], fSize = 2, fBytes = [104, 105]\<rparr>"

definition demoBigBytes :: "8 word list" where
  "demoBigBytes = replicate (15 * 1024 * 1024) 0"

definition demoBig :: jsFile where
  "demoBig = \<lparr>fName = ''video.bin'', fType = ''application/octet-stream'',
               fSize = 15 * 1024 * 1024, fBytes = demoBigBytes\<rparr>"

definition demoChat :: chat where
  "demoChat = \<lparr>cId = ''chat_g'', cType = Group, title = Some ''Weekend Plans'',
                createdByProfileId = ''alex'', cCreatedAt = 10, updatedAt = 10,
                lastMessageAt = Some 10\<rparr>"

definition demoOld :: chat where
  "demoOld = \<lparr>cId = ''chat_d'', cType = Dm, title = None,
               createdByProfileId = ''alex'', cCreatedAt = 3, updatedAt = 4,
               lastMessageAt = None\<rparr>"

definition demoMember :: "string \<Rightarrow> string \<Rightarrow> string \<Rightarrow> membershipRole \<Rightarrow> chatMembership" where
  "demoMember i c p r =
     \<lparr>mId = i, mChatId = c, mProfileId = p, role = r, joinedAt = 10, leftAt = None\<rparr>"

text \<open>A group of Alex, Sam and Casey, and a direct chat of Alex and Sam.\<close>

definition demoDb :: db where
  "demoDb = \<lparr>profiles = [], chats = [demoOld, demoChat],
     memberships = [demoMember ''m1'' ''chat_g'' ''alex'' Owner,
                    demoMember ''m2'' ''chat_g'' ''sam'' Member,
                    demoMember ''m3'' ''chat_g'' ''casey'' Member,
                    demoMember ''m4'' ''chat_d'' ''alex'' Owner,
                    demoMember ''m5'' ''chat_d'' ''sam'' Member],
     messages = [], attachmentsMeta = [], attachmentsBlob = []\<rparr>"

definition demoImageInput :: sendMessageInput where
  "demoImageInput = \<lparr>inChatId = ''chat_g'', inSenderProfileId = ''alex'', inText = ''  '',
     inFiles = [demoImage]\<rparr>"

definition demoBigInput :: sendMessageInput where
  "demoBigInput = \<lparr>inChatId = ''chat_g'', inSenderProfileId = ''alex'', inText = ''hi'',
     inFiles = [demoImage, demoBig]\<rparr>"

definition demoBlankInput :: sendMessageInput where
  "demoBlankInput = \<lparr>inChatId = ''chat_g'', inSenderProfileId = ''alex'',
     inText = [CHR '' '', CHR 0x09, CHR 0x0A], inFiles = []\<rparr>"

text \<open>A name of 65 characters.\<close>

definition demoLongName :: string where
  "demoLongName = ''aaaaaaaaaaaaaaaaaaaaaaaaaaaaaaaaaaaaaaaaaaaaaaaaaaaaaaaaaaaaaaaaa''"

text \<open>
  A message of the sample group with two attachments, of which the second has lost its
  blob.
\<close>

definition demoMsg :: message where
  "demoMsg = \<lparr>msgId = ''msg_1'', msgChatId = ''chat_g'', senderProfileId = ''sam'',
     msgType = MMixed, msgText = Some ''two files'', attachmentIds = [''att_1'', ''att_2''],
     msgCreatedAt = 12\<rparr>"

definition demoMeta :: "string \<Rightarrow> attachmentMeta" where
  "demoMeta i = \<lparr>aId = i, aMessageId = ''msg_1'', aChatId = ''chat_g'', kind = AImage,
     fileName = ''cat.png'', mimeType = ''image/png'', sizeBytes = 3,
     blobKey = ''blob_'' @ i, aCreatedAt = 12\<rparr>"

definition demoOrphanDb :: db where
  "demoOrphanDb = demoDb\<lparr>messages := [demoMsg],
     attachmentsMeta := [demoMeta ''att_1'', demoMeta ''att_2''],
     attachmentsBlob := [(''blob_att_1'', demoImage)]\<rparr>"

text \<open>The database after Alex has opened a direct chat with Sam in an empty one.\<close>

definition demoDmDb :: db where
  "demoDmDb = snd (createDm 5 demoRand ''alex'' ''sam'' emptyDb)"

definition demoTwoInput :: sendMessageInput where
  "demoTwoInput = \<lparr>inChatId = ''chat_g'', inSenderProfileId = ''alex'', inText = ''see these'',
     inFiles = [demoImage, demoUntyped]\<rparr>"

definition demoUntypedInput :: sendMessageInput where
  "demoUntypedInput = \<lparr>inChatId = ''chat_g'', inSenderProfileId = ''alex'', inText = [],
     inFiles = [demoUntyped]\<rparr>"

section \<open>Auxiliary facts\<close>

lemmas demo_defs = demoImageInput_def demoBigInput_def demoBlankInput_def demoDb_def
  demoImage_def demoRand_def demoChat_def demoOld_def demoMember_def demoUntyped_def demoBig_def

lemma isImageMime_take: "isImageMime m = (take 6 m = ''image/'')"
proof -
  have "length ''image/'' = 6" by simp
  then show ?thesis unfolding isImageMime_def startsWith_def by (simp only:)
qed

lemmas run_defs = sendMessage_def Let_def trim_def isSpace_def validateFile_def limits_def
  getTotalAttachmentBytes_def deriveMessageType_def isImageMime_take createId_def
  attachFile_def newAttachmentMeta_def put_def getChat_def getByKey_def touchChat_def

lemma foldl_add_sum_list: "foldl (\<lambda>sum x. sum + f x) (a::nat) xs = a + sum_list (map f xs)"
  by (induction xs arbitrary: a) simp_all

lemma getTotalAttachmentBytes_sum:
  "getTotalAttachmentBytes s = sum_list (map sizeBytes (attachmentsMeta s))"
  by (simp add: getTotalAttachmentBytes_def foldl_add_sum_list)

subsection \<open>Sorting with a comparator\<close>

lemma sortBy_Nil: "sortBy cmp [] = []"
  by (simp add: sortBy_def)

lemma sortBy_Cons: "sortBy cmp (x # xs) = insertBy cmp x (sortBy cmp xs)"
  by (simp add: sortBy_def)

lemma set_insertBy: "set (insertBy cmp x ys) = insert x (set ys)"
  by (induction ys) auto

lemma set_sortBy: "set (sortBy cmp xs) = set xs"
  by (induction xs) (simp_all add: sortBy_Nil sortBy_Cons set_insertBy)

lemma mset_insertBy: "mset (insertBy cmp x ys) = add_mset x (mset ys)"
  by (induction ys) simp_all

lemma mset_sortBy: "mset (sortBy cmp xs) = mset xs"
  by (induction xs) (simp_all add: sortBy_Nil sortBy_Cons mset_insertBy)

lemma sorted_insertBy:
  assumes "\<And>a b. (cmp a b \<le> 0) = (f a \<le> (f b :: int))"
  shows "sorted (map f ys) \<Longrightarrow> sorted (map f (insertBy cmp x ys))"
  using assms by (induction ys) (auto simp: set_insertBy)

lemma sorted_sortBy:
  assumes "\<And>a b. (cmp a b \<le> 0) = (f a \<le> (f b :: int))"
  shows "sorted (map f (sortBy cmp xs))"
proof (induction xs)
  case Nil
  show ?case by (simp add: sortBy_Nil)
next
  case (Cons x xs)
  with sorted_insertBy [of cmp f, OF assms] show ?case
    by (simp add: sortBy_Cons)
qed

subsection \<open>Grouping\<close>

lemma getOrEmpty_groupStep:
  "getOrEmpty (groupStep f x m) k = getOrEmpty m k @ (if f x = k then [x] else [])"
  by (simp add: getOrEmpty_def groupStep_def split: option.splits)

lemma getOrEmpty_fold_groupStep:
  "getOrEmpty (fold (groupStep f) xs m) k = getOrEmpty m k @ filter (\<lambda>x. f x = k) xs"
  by (induction xs arbitrary: m) (simp_all add: getOrEmpty_groupStep)

lemma getOrEmpty_groupBy: "getOrEmpty (groupBy f xs) k = filter (\<lambda>x. f x = k) xs"
  by (simp add: groupBy_def getOrEmpty_fold_groupStep) (simp add: getOrEmpty_def)

subsection \<open>Object stores\<close>

lemma mset_put:
  "mset (put key r store) = add_mset r (filter_mset (\<lambda>x. key x \<noteq> key r) (mset store))"
  by (simp add: put_def)

lemma find_insort_key_other: "\<not> P r \<Longrightarrow> find P (insort_key f r xs) = find P xs"
  by (induction xs) simp_all

lemma find_filter_imp: "(\<And>x. P x \<Longrightarrow> Q x) \<Longrightarrow> find P (filter Q xs) = find P xs"
  by (induction xs) auto

lemma set_put: "set (put key r store) = insert r {x \<in> set store. key x \<noteq> key r}"
  by (auto simp: put_def set_insort_key)

lemma find_unique:
  assumes "x \<in> set xs" and "P x" and "\<forall>y \<in> set xs. P y \<longrightarrow> y = x"
  shows "find P xs = Some x"
  using assms
proof (induction xs)
  case Nil
  then show ?case by simp
next
  case (Cons a xs)
  show ?case
  proof (cases "P a")
    case True
    with Cons.prems(3) have "a = x" by simp
    with True show ?thesis by simp
  next
    case False
    with Cons.prems have "x \<in> set xs" by auto
    moreover from Cons.prems(3) have "\<forall>y \<in> set xs. P y \<longrightarrow> y = x" by simp
    ultimately have "find P xs = Some x" using Cons.IH Cons.prems(2) by blast
    with False show ?thesis by simp
  qed
qed

lemma getByKey_put:
  "getByKey key k (put key r store) = (if k = key r then Some r else getByKey key k store)"
proof (cases "k = key r")
  case True
  have "find (\<lambda>x. key x = key r) (put key r store) = Some r"
    by (rule find_unique) (simp_all add: set_put)
  with True show ?thesis by (simp add: getByKey_def)
next
  case False
  then have "find (\<lambda>x. key x = k) (put key r store) = find (\<lambda>x. key x = k) store"
    unfolding put_def
    by (simp add: find_insort_key_other find_filter_imp)
  with False show ?thesis by (simp add: getByKey_def)
qed

section \<open>Sending a message\<close>

text \<open>
  C6. The kind of the message that \<open>sendMessage\<close> produces: \<open>text\<close> when there is no
  file; with exactly one file and a text that is empty after trimming, \<open>image\<close> when the
  MIME type of the file starts with \<open>image/\<close> and \<open>file\<close> otherwise; \<open>mixed\<close> in every
  other case.
\<close>

theorem sendMessage_type:
  assumes "sendMessage now rand input s = (Inr m, s')"
  shows "msgType m =
     (if inFiles input = [] then MText
      else if length (inFiles input) = 1 \<and> trim (inText input) = [] then
        (if take 6 (fType (hd (inFiles input))) = ''image/'' then MImage else MFile)
      else MMixed)"
proof -
  have m: "msgType m = deriveMessageType (trim (inText input)) (inFiles input)"
    using assms
    by (auto simp: sendMessage_def Let_def split: if_splits option.splits)
  show ?thesis
    unfolding m deriveMessageType_def isImageMime_take
    by (cases "inFiles input") (simp_all add: hd_conv_nth)
qed

text \<open>A PNG file sent with a blank text into the sample group gives an image message.\<close>

theorem sendMessage_type_witness:
  "sendMessage 20 demoRand demoImageInput demoDb
     = (Inr (projr (fst (sendMessage 20 demoRand demoImageInput demoDb))),
        snd (sendMessage 20 demoRand demoImageInput demoDb))
   \<and> msgType (projr (fst (sendMessage 20 demoRand demoImageInput demoDb))) = MImage"
proof -
  have h: "sendMessage 20 demoRand demoImageInput demoDb
     = (Inr (projr (fst (sendMessage 20 demoRand demoImageInput demoDb))),
        snd (sendMessage 20 demoRand demoImageInput demoDb))"
    by (simp add: run_defs demo_defs)
  from sendMessage_type [OF h] h show ?thesis
    by (simp add: demo_defs trim_def isSpace_def)
qed

text \<open>
  C3. When the text is empty after trimming and there is no file, \<open>sendMessage\<close> fails
  with the error of the empty message and leaves every store as it was: no message, no
  attachment metadata and no blob is stored.
\<close>

theorem sendMessage_empty:
  assumes "trim (inText input) = []" and "inFiles input = []"
  shows "sendMessage now rand input s = (Inl (Error ''Cannot send an empty message''), s)"
  using assms by (simp add: sendMessage_def)

text \<open>A text of a space, a tab and a line feed, with no file.\<close>

theorem sendMessage_empty_witness:
  "trim (inText demoBlankInput) = [] \<and> inFiles demoBlankInput = []
   \<and> sendMessage 20 demoRand demoBlankInput demoDb
       = (Inl (Error ''Cannot send an empty message''), demoDb)"
proof -
  have t: "trim (inText demoBlankInput) = []"
    by (simp add: demoBlankInput_def trim_def isSpace_def)
  have f: "inFiles demoBlankInput = []"
    by (simp add: demoBlankInput_def)
  from sendMessage_empty [OF t f, of 20 demoRand demoDb] t f show ?thesis
    by simp
qed

text \<open>
  C2. The quota is enforced before any write. If a file of the input is larger than
  \<open>maxFileBytes\<close>, or the sizes of the stored attachments and of the new files together
  exceed \<open>maxTotalBytes\<close>, then \<open>sendMessage\<close> fails, every store is unchanged (so nothing
  of the rejected message exists) and the total of the attachment bytes is the sum of
  \<open>sizeBytes\<close> over the stored metadata, as before.
\<close>

theorem sendMessage_quota:
  assumes "(\<exists>f \<in> set (inFiles input). fSize f > maxFileBytes limits)
         \<or> sum_list (map sizeBytes (attachmentsMeta s)) + sum_list (map fSize (inFiles input))
             > maxTotalBytes limits"
  shows "(\<exists>e. fst (sendMessage now rand input s) = Inl e)
       \<and> snd (sendMessage now rand input s) = s
       \<and> getTotalAttachmentBytes (snd (sendMessage now rand input s))
           = sum_list (map sizeBytes (attachmentsMeta s))"
proof -
  have none: "find (\<lambda>f. \<not> ok (validateFile f)) (inFiles input) = None
      \<Longrightarrow> \<not> (\<exists>f \<in> set (inFiles input). fSize f > maxFileBytes limits)"
    by (auto simp: find_None_iff validateFile_def split: if_splits)
  show ?thesis
    using assms none
    by (auto simp: sendMessage_def Let_def getTotalAttachmentBytes_sum foldl_add_sum_list
        split: option.splits)
qed

text \<open>
  A file of 15 MB, sent after a small one, against the cap of 10 MB per file: the send
  fails and the sample database is as before.
\<close>

theorem sendMessage_quota_witness:
  "maxFileBytes limits < fSize demoBig \<and> demoBig \<in> set (inFiles demoBigInput)
   \<and> fst (sendMessage 20 demoRand demoBigInput demoDb)
       = Inl (Error ''File \"video.bin\" is larger than 10 MB.'')
   \<and> snd (sendMessage 20 demoRand demoBigInput demoDb) = demoDb
   \<and> getTotalAttachmentBytes (snd (sendMessage 20 demoRand demoBigInput demoDb)) = 0"
proof -
  have big: "maxFileBytes limits < fSize demoBig" "demoBig \<in> set (inFiles demoBigInput)"
    by (simp_all add: demoBig_def demoBigInput_def limits_def)
  then have h: "(\<exists>f \<in> set (inFiles demoBigInput). fSize f > maxFileBytes limits)
         \<or> sum_list (map sizeBytes (attachmentsMeta demoDb))
              + sum_list (map fSize (inFiles demoBigInput)) > maxTotalBytes limits"
    by blast
  have e: "fst (sendMessage 20 demoRand demoBigInput demoDb)
       = Inl (Error ''File \"video.bin\" is larger than 10 MB.'')"
    by (simp add: sendMessage_def Let_def trim_def isSpace_def validateFile_def limits_def
        demoBigInput_def demoBig_def demoImage_def)
  have z: "sum_list (map sizeBytes (attachmentsMeta demoDb)) = 0"
    by (simp add: demoDb_def)
  from sendMessage_quota [OF h, of 20 demoRand]
  have q: "snd (sendMessage 20 demoRand demoBigInput demoDb) = demoDb"
    by blast
  from q z have t: "getTotalAttachmentBytes (snd (sendMessage 20 demoRand demoBigInput demoDb)) = 0"
    by (simp add: getTotalAttachmentBytes_sum)
  from big e q t show ?thesis
    by blast
qed

section \<open>Creating a profile\<close>

text \<open>
  C8 at a name of 65 characters. The display name of a profile has 1 to 64 characters
  after trimming, and \<open>createProfile\<close> is to reject any other name. It has no such
  check: the name is trimmed and stored, and the profile found under the new identifier
  has a \<open>displayName\<close> of length 65.
\<close>

theorem createProfile_long_name_stored:
  "length (trim demoLongName) = 65
   \<and> getProfileById ''profile_u'' (snd (createProfile 20 demoRand demoLongName emptyDb))
       = Some (fst (createProfile 20 demoRand demoLongName emptyDb))
   \<and> length (displayName (fst (createProfile 20 demoRand demoLongName emptyDb))) = 65"
  by (simp add: createProfile_def Let_def getProfileById_def getByKey_def put_def emptyDb_def
      createId_def demoRand_def demoLongName_def trim_def isSpace_def)

section \<open>Adding members to a group\<close>

lemmas add_defs = addGroupMembers_def addMemberStep_def uniq_def Let_def getMembershipsByChat_def
  getChat_def getByKey_def touchChat_def put_def mapOf_def getProfiles_def createId_def

text \<open>
  C7 at the sample group, where Sam is an active member: adding Sam again creates no
  membership and no message, but the record of the chat is written back with
  \<open>updatedAt\<close> and \<open>lastMessageAt\<close> moved from 10 to the time of the call, 50.
\<close>

theorem addGroupMembers_readd_touches_chat:
  "getChat ''chat_g'' demoDb = Some demoChat \<and> updatedAt demoChat = 10
   \<and> lastMessageAt demoChat = Some 10
   \<and> canProfileAccessChat ''sam'' ''chat_g'' demoDb
   \<and> memberships (addGroupMembers 50 demoRand ''chat_g'' ''alex'' [''sam''] demoDb)
       = memberships demoDb
   \<and> messages (addGroupMembers 50 demoRand ''chat_g'' ''alex'' [''sam''] demoDb)
       = messages demoDb
   \<and> getChat ''chat_g'' (addGroupMembers 50 demoRand ''chat_g'' ''alex'' [''sam''] demoDb)
       = Some (demoChat\<lparr>updatedAt := 50, lastMessageAt := Some 50\<rparr>)"
  by (simp add: add_defs demo_defs canProfileAccessChat_def del: set_filter)

section \<open>The chat list\<close>

lemma liChat_chatListItemOf [simp]:
  "liChat (chatListItemOf p pb mb gb c) = c"
  by (simp add: chatListItemOf_def Let_def)

lemma liLastMessageAt_chatListItemOf [simp]:
  "liLastMessageAt (chatListItemOf p pb mb gb c) = lastMessageAt c"
  by (simp add: chatListItemOf_def Let_def)

lemma activityOf_chatListItemOf:
  "activityOf (chatListItemOf p pb mb gb c) = effectiveActivity c"
  by (simp add: activityOf_def effectiveActivity_def split: option.split)

lemma canProfileAccessChat_iff:
  "canProfileAccessChat p c s
     = (\<exists>m \<in> set (memberships s). mChatId m = c \<and> mProfileId m = p \<and> leftAt m = None)"
  by (auto simp: canProfileAccessChat_def getMembershipsByChat_def list_ex_iff)

lemma visible_items:
  assumes "x \<in> set (getVisibleChatsForProfile p s)"
  shows "liChat x \<in> set (chats s) \<and> canProfileAccessChat p (cId (liChat x)) s
       \<and> activityOf x = effectiveActivity (liChat x)"
proof -
  from assms obtain c where c: "c \<in> set (chats s)"
    and v: "cId c \<in> set (map mChatId (filter (\<lambda>m. mProfileId m = p)
                (filter (\<lambda>m. leftAt m = None) (memberships s))))"
    and x: "x = chatListItemOf p (mapOf (map (\<lambda>p. (pId p, p)) (getProfiles s)))
                 (groupBy mChatId (filter (\<lambda>m. leftAt m = None) (memberships s)))
                 (groupBy msgChatId (messages s)) c"
    unfolding getVisibleChatsForProfile_def Let_def set_sortBy by auto
  from v have "canProfileAccessChat p (cId c) s"
    unfolding canProfileAccessChat_iff by auto
  with c x show ?thesis
    by (simp add: activityOf_chatListItemOf)
qed

text \<open>
  C5. Every entry of the list that \<open>getVisibleChatsForProfile\<close> returns for a profile
  is a stored chat in which the profile has an active membership, so
  \<open>canProfileAccessChat\<close> holds for it; and the list is in descending order of
  \<open>lastMessageAt\<close>, with \<open>updatedAt\<close> in its place when it is null.
\<close>

theorem getVisibleChats_accessible_sorted:
  "(\<forall>x \<in> set (getVisibleChatsForProfile p s).
       liChat x \<in> set (chats s) \<and> canProfileAccessChat p (cId (liChat x)) s)
   \<and> sorted_wrt (\<lambda>a b. effectiveActivity (liChat a) \<ge> effectiveActivity (liChat b))
        (getVisibleChatsForProfile p s)"
proof
  show "\<forall>x \<in> set (getVisibleChatsForProfile p s).
       liChat x \<in> set (chats s) \<and> canProfileAccessChat p (cId (liChat x)) s"
    using visible_items by blast
next
  have cmp: "\<And>a b. (byActivityDesc a b \<le> 0) = (- activityOf a \<le> - activityOf b)"
    by (simp add: byActivityDesc_def)
  have "sorted (map (\<lambda>x. - activityOf x) (getVisibleChatsForProfile p s))"
    unfolding getVisibleChatsForProfile_def Let_def
    by (rule sorted_sortBy [of byActivityDesc "\<lambda>x. - activityOf x", OF cmp])
  then have "sorted_wrt (\<lambda>a b. activityOf b \<le> activityOf a) (getVisibleChatsForProfile p s)"
    by (simp add: sorted_map)
  then show "sorted_wrt (\<lambda>a b. effectiveActivity (liChat a) \<ge> effectiveActivity (liChat b))
        (getVisibleChatsForProfile p s)"
    by (rule sorted_wrt_mono_rel [rotated]) (simp add: visible_items)
qed

lemmas visible_defs = getVisibleChatsForProfile_def chatListItemOf_def Let_def getProfiles_def
  mapOf_def groupBy_def groupStep_def getOrEmpty_def sortBy_def byActivityDesc_def
  activityOf_def byCreatedAt_def

text \<open>
  For Alex the sample database lists the group (last message at 10) before the direct
  chat (no message, updated at 4).
\<close>

theorem getVisibleChats_witness:
  "map (\<lambda>x. cId (liChat x)) (getVisibleChatsForProfile ''alex'' demoDb) = [''chat_g'', ''chat_d'']
   \<and> hd (getVisibleChatsForProfile ''alex'' demoDb)
         \<in> set (getVisibleChatsForProfile ''alex'' demoDb)
   \<and> canProfileAccessChat ''alex'' (cId (liChat (hd (getVisibleChatsForProfile ''alex'' demoDb))))
        demoDb
   \<and> effectiveActivity demoChat = 10 \<and> effectiveActivity demoOld = 4"
proof -
  have e: "map (\<lambda>x. cId (liChat x)) (getVisibleChatsForProfile ''alex'' demoDb)
             = [''chat_g'', ''chat_d'']"
    by (simp add: visible_defs demo_defs del: set_filter)
  then have "getVisibleChatsForProfile ''alex'' demoDb \<noteq> []" by auto
  then have m: "hd (getVisibleChatsForProfile ''alex'' demoDb)
         \<in> set (getVisibleChatsForProfile ''alex'' demoDb)"
    by simp
  with getVisibleChats_accessible_sorted [of "''alex''" demoDb]
  have a: "canProfileAccessChat ''alex''
             (cId (liChat (hd (getVisibleChatsForProfile ''alex'' demoDb)))) demoDb"
    by blast
  have t: "effectiveActivity demoChat = 10 \<and> effectiveActivity demoOld = 4"
    by (simp add: effectiveActivity_def demoChat_def demoOld_def)
  from e m a t show ?thesis by blast
qed

section \<open>Reading the messages of a chat\<close>

lemma truncate_withBlob [simp]: "attachmentMeta.truncate (withBlob meta b) = meta"
  by (simp add: withBlob_def attachmentMeta.defs attachmentWithBlob.defs)

lemma blob_withBlob [simp]: "blob (withBlob meta b) = b"
  by (simp add: withBlob_def attachmentMeta.defs attachmentWithBlob.defs)

lemma blobKey_withBlob [simp]: "blobKey (withBlob meta b) = blobKey meta"
  by (simp add: withBlob_def attachmentMeta.defs attachmentWithBlob.defs)

lemma truncate_withAttachments [simp]: "message.truncate (withAttachments m atts) = m"
  by (simp add: withAttachments_def message.defs messageWithAttachments.defs)

lemma attachments_withAttachments [simp]: "attachments (withAttachments m atts) = atts"
  by (simp add: withAttachments_def message.defs messageWithAttachments.defs)

lemma msgId_withAttachments [simp]: "msgId (withAttachments m atts) = msgId m"
  by (simp add: withAttachments_def message.defs messageWithAttachments.defs)

lemma resolveAttachments_Nil [simp]: "resolveAttachments s [] = []"
  by (simp add: resolveAttachments_def map_filter_simps)

lemma resolveAttachments_Cons:
  "resolveAttachments s (meta # metas) =
     (case getBlob (blobKey meta) s of
        None \<Rightarrow> resolveAttachments s metas
      | Some b \<Rightarrow> withBlob meta b # resolveAttachments s metas)"
  by (simp add: resolveAttachments_def map_filter_simps split: option.split)

lemma resolveAttachments_metas:
  "map attachmentMeta.truncate (resolveAttachments s metas)
     = filter (\<lambda>meta. getBlob (blobKey meta) s \<noteq> None) metas"
  by (induction metas) (auto simp: resolveAttachments_Cons split: option.split)

lemma resolveAttachments_blobs:
  "a \<in> set (resolveAttachments s metas) \<Longrightarrow> getBlob (blobKey a) s = Some (blob a)"
  by (induction metas) (auto simp: resolveAttachments_Cons split: option.splits)

text \<open>
  C10. \<open>getMessages\<close> has no failure: it returns every message of the chat, in the
  order of \<open>createdAt\<close>, whatever blobs are stored. The attachments of a returned
  message are the metadata records of the chat and the message whose blob is stored, each
  with that blob; a record whose \<open>blobKey\<close> has no blob is left out.
\<close>

theorem getMessages_skips_missing_blobs:
  "map message.truncate (getMessages c s)
     = sortBy byCreatedAt (filter (\<lambda>m. msgChatId m = c) (messages s))
   \<and> (\<forall>mw \<in> set (getMessages c s).
         map attachmentMeta.truncate (attachments mw)
           = filter (\<lambda>meta. getBlob (blobKey meta) s \<noteq> None)
               (filter (\<lambda>meta. aMessageId meta = msgId mw)
                  (filter (\<lambda>meta. aChatId meta = c) (attachmentsMeta s)))
       \<and> (\<forall>a \<in> set (attachments mw). getBlob (blobKey a) s = Some (blob a)))"
proof
  show "map message.truncate (getMessages c s)
     = sortBy byCreatedAt (filter (\<lambda>m. msgChatId m = c) (messages s))"
    by (simp add: getMessages_def Let_def comp_def)
next
  show "\<forall>mw \<in> set (getMessages c s).
         map attachmentMeta.truncate (attachments mw)
           = filter (\<lambda>meta. getBlob (blobKey meta) s \<noteq> None)
               (filter (\<lambda>meta. aMessageId meta = msgId mw)
                  (filter (\<lambda>meta. aChatId meta = c) (attachmentsMeta s)))
       \<and> (\<forall>a \<in> set (attachments mw). getBlob (blobKey a) s = Some (blob a))"
  proof
    fix mw
    assume "mw \<in> set (getMessages c s)"
    then obtain m where mw: "mw = withAttachments m (resolveAttachments s
          (filter (\<lambda>meta. aMessageId meta = msgId m)
             (filter (\<lambda>meta. aChatId meta = c) (attachmentsMeta s))))"
      unfolding getMessages_def Let_def getOrEmpty_groupBy by auto
    show "map attachmentMeta.truncate (attachments mw)
           = filter (\<lambda>meta. getBlob (blobKey meta) s \<noteq> None)
               (filter (\<lambda>meta. aMessageId meta = msgId mw)
                  (filter (\<lambda>meta. aChatId meta = c) (attachmentsMeta s)))
       \<and> (\<forall>a \<in> set (attachments mw). getBlob (blobKey a) s = Some (blob a))"
      unfolding mw attachments_withAttachments msgId_withAttachments
      using resolveAttachments_metas resolveAttachments_blobs by blast
  qed
qed

lemmas messages_defs = getMessages_def Let_def groupBy_def groupStep_def getOrEmpty_def
  sortBy_def byCreatedAt_def resolveAttachments_def map_filter_simps getBlob_def getByKey_def

text \<open>
  The second attachment of the sample message has no blob: the message is returned with
  the first attachment only.
\<close>

theorem getMessages_skips_missing_blobs_witness:
  "getBlob ''blob_att_2'' demoOrphanDb = None
   \<and> demoMeta ''att_2'' \<in> set (attachmentsMeta demoOrphanDb)
   \<and> getMessages ''chat_g'' demoOrphanDb
       = [withAttachments demoMsg [withBlob (demoMeta ''att_1'') demoImage]]
   \<and> map attachmentMeta.truncate
        (attachments (withAttachments demoMsg [withBlob (demoMeta ''att_1'') demoImage]))
       = [demoMeta ''att_1'']"
proof -
  have g: "getMessages ''chat_g'' demoOrphanDb
       = [withAttachments demoMsg [withBlob (demoMeta ''att_1'') demoImage]]"
    by (simp add: messages_defs demoOrphanDb_def demoDb_def demoMsg_def demoMeta_def)
  then have i: "withAttachments demoMsg [withBlob (demoMeta ''att_1'') demoImage]
       \<in> set (getMessages ''chat_g'' demoOrphanDb)"
    by simp
  have b: "getBlob ''blob_att_2'' demoOrphanDb = None"
       "demoMeta ''att_2'' \<in> set (attachmentsMeta demoOrphanDb)"
    by (simp_all add: getBlob_def getByKey_def demoOrphanDb_def demoDb_def)
  have f: "filter (\<lambda>meta. getBlob (blobKey meta) demoOrphanDb \<noteq> None)
               (filter (\<lambda>meta. aMessageId meta = ''msg_1'')
                  (filter (\<lambda>meta. aChatId meta = ''chat_g'') (attachmentsMeta demoOrphanDb)))
           = [demoMeta ''att_1'']"
    by (simp add: getBlob_def getByKey_def demoOrphanDb_def demoDb_def demoMeta_def)
  have k: "msgId (withAttachments demoMsg [withBlob (demoMeta ''att_1'') demoImage]) = ''msg_1''"
    by (simp add: demoMsg_def)
  from getMessages_skips_missing_blobs [of "''chat_g''" demoOrphanDb] i
  have "map attachmentMeta.truncate
        (attachments (withAttachments demoMsg [withBlob (demoMeta ''att_1'') demoImage]))
       = filter (\<lambda>meta. getBlob (blobKey meta) demoOrphanDb \<noteq> None)
               (filter (\<lambda>meta. aMessageId meta
                    = msgId (withAttachments demoMsg [withBlob (demoMeta ''att_1'') demoImage]))
                  (filter (\<lambda>meta. aChatId meta = ''chat_g'') (attachmentsMeta demoOrphanDb)))"
    by blast
  with f k have "map attachmentMeta.truncate
        (attachments (withAttachments demoMsg [withBlob (demoMeta ''att_1'') demoImage]))
       = [demoMeta ''att_1'']"
    by (simp only:)
  with g b show ?thesis by blast
qed

section \<open>Active memberships\<close>

lemma set_activePairs_insort:
  "set (activePairs (insort_key k m xs))
     = (if leftAt m = None then {(mChatId m, mProfileId m)} else {}) \<union> set (activePairs xs)"
  by (auto simp: activePairs_def set_insort_key)

lemma set_activePairs_filter: "set (activePairs (filter Q ms)) \<subseteq> set (activePairs ms)"
  by (auto simp: activePairs_def)

lemma set_activePairs_put:
  "set (activePairs (put mId m ms)) \<subseteq> insert (mChatId m, mProfileId m) (set (activePairs ms))"
  by (auto simp: activePairs_def set_put)

lemma activePairs_Cons:
  "activePairs (x # xs)
     = (if leftAt x = None then [(mChatId x, mProfileId x)] else []) @ activePairs xs"
  by (simp add: activePairs_def)

lemma distinct_activePairs_filter:
  "distinct (activePairs ms) \<Longrightarrow> distinct (activePairs (filter Q ms))"
proof (induction ms)
  case Nil
  then show ?case by simp
next
  case (Cons a ms)
  then have d: "distinct (activePairs (filter Q ms))"
    by (simp add: activePairs_Cons split: if_splits)
  show ?case
  proof (cases "Q a \<and> leftAt a = None")
    case True
    with Cons.prems have "(mChatId a, mProfileId a) \<notin> set (activePairs ms)"
      by (simp add: activePairs_Cons)
    with set_activePairs_filter [of Q ms]
    have "(mChatId a, mProfileId a) \<notin> set (activePairs (filter Q ms))"
      by blast
    with True d show ?thesis by (simp add: activePairs_Cons)
  next
    case False
    with d show ?thesis by (auto simp: activePairs_Cons)
  qed
qed

lemma distinct_activePairs_insort:
  "distinct (activePairs (insort_key k m xs))
     = distinct ((if leftAt m = None then [(mChatId m, mProfileId m)] else []) @ activePairs xs)"
proof (induction xs)
  case Nil
  show ?case by (simp add: activePairs_Cons)
next
  case (Cons x xs)
  show ?case
  proof (cases "k m \<le> k x")
    case True
    then show ?thesis by (simp add: activePairs_Cons)
  next
    case False
    then have "activePairs (insort_key k m (x # xs))
        = (if leftAt x = None then [(mChatId x, mProfileId x)] else [])
          @ activePairs (insort_key k m xs)"
      by (simp add: activePairs_Cons)
    with Cons.IH set_activePairs_insort [of k m xs] show ?thesis
      by (auto simp: activePairs_Cons)
  qed
qed

lemma distinct_activePairs_put_new:
  assumes "distinct (activePairs ms)"
    and "(mChatId m, mProfileId m) \<notin> set (activePairs ms)"
  shows "distinct (activePairs (put mId m ms))"
proof -
  let ?rest = "activePairs (filter (\<lambda>x. mId x \<noteq> mId m) ms)"
  have d: "distinct ?rest"
    using assms(1) by (rule distinct_activePairs_filter)
  from assms(2) set_activePairs_filter [of "\<lambda>x. mId x \<noteq> mId m" ms]
  have n: "(mChatId m, mProfileId m) \<notin> set ?rest"
    by blast
  from d n show ?thesis
    unfolding put_def distinct_activePairs_insort by (cases "leftAt m") simp_all
qed

lemma distinct_activePairs_put_left:
  assumes "distinct (activePairs ms)" and "leftAt m \<noteq> None"
  shows "distinct (activePairs (put mId m ms))"
proof -
  have "distinct (activePairs (filter (\<lambda>x. mId x \<noteq> mId m) ms))"
    using assms(1) by (rule distinct_activePairs_filter)
  with assms(2) show ?thesis
    unfolding put_def distinct_activePairs_insort by (cases "leftAt m") simp_all
qed

lemma distinct_map_neq:
  assumes "distinct (map f (a # xs))" and "x \<in> set xs"
  shows "f x \<noteq> f a"
proof
  assume e: "f x = f a"
  from assms(2) have "f x \<in> f ` set xs" by (rule imageI)
  with e have "f a \<in> set (map f xs)" by simp
  with assms(1) show False by simp
qed

lemma distinct_activePairs_fold_put:
  assumes "distinct (map (\<lambda>m. (mChatId m, mProfileId m)) news)"
    and "\<forall>m \<in> set news. (mChatId m, mProfileId m) \<notin> set (activePairs ms)"
    and "distinct (activePairs ms)"
  shows "distinct (activePairs (fold (put mId) news ms))"
  using assms
proof (induction news arbitrary: ms)
  case Nil
  then show ?case by simp
next
  case (Cons m news)
  have d: "distinct (activePairs (put mId m ms))"
    using Cons.prems by (intro distinct_activePairs_put_new) simp_all
  have "\<forall>x \<in> set news. (mChatId x, mProfileId x) \<notin> set (activePairs (put mId m ms))"
  proof
    fix x assume x: "x \<in> set news"
    from distinct_map_neq [of "\<lambda>m. (mChatId m, mProfileId m)" m news x, OF Cons.prems(1) x]
    have "(mChatId x, mProfileId x) \<noteq> (mChatId m, mProfileId m)" .
    moreover from x Cons.prems(2) have "(mChatId x, mProfileId x) \<notin> set (activePairs ms)"
      by simp
    ultimately show "(mChatId x, mProfileId x) \<notin> set (activePairs (put mId m ms))"
      using set_activePairs_put [of m ms] by blast
  qed
  with Cons.IH [of "put mId m ms"] Cons.prems(1) d show ?case
    by simp
qed

lemma activePairs_chat: "(c, p) \<in> set (activePairs ms) \<Longrightarrow> c \<in> mChatId ` set ms"
  by (auto simp: activePairs_def)

lemma length_filter_distinct_map:
  "distinct (map f xs) \<Longrightarrow> length (filter (\<lambda>x. f x = y) xs) \<le> 1"
proof (induction xs)
  case Nil
  then show ?case by simp
next
  case (Cons a xs)
  show ?case
  proof (cases "f a = y")
    case True
    from Cons.prems have "f a \<notin> f ` set xs" by simp
    with True have "\<forall>x \<in> set xs. f x \<noteq> y" by (metis imageI)
    then have "filter (\<lambda>x. f x = y) xs = []" by (simp add: filter_empty_conv)
    with True show ?thesis by simp
  next
    case False
    with Cons show ?thesis by simp
  qed
qed

lemma oneActivePerPair_length:
  assumes "oneActivePerPair s"
  shows "length (activeMembershipsOf c p s) \<le> 1"
proof -
  have "activeMembershipsOf c p s
          = filter (\<lambda>m. (mChatId m, mProfileId m) = (c, p))
              (filter (\<lambda>m. leftAt m = None) (memberships s))"
    by (auto simp: activeMembershipsOf_def intro: filter_cong)
  with assms length_filter_distinct_map
    [of "\<lambda>m. (mChatId m, mProfileId m)" "filter (\<lambda>m. leftAt m = None) (memberships s)" "(c, p)"]
  show ?thesis
    by (simp add: oneActivePerPair_def activePairs_def)
qed

section \<open>The operations keep the memberships unique\<close>

lemma fold_attachFile_frame:
  "memberships (snd (fold (attachFile now mid cid) xs acc)) = memberships (snd acc)
   \<and> chats (snd (fold (attachFile now mid cid) xs acc)) = chats (snd acc)
   \<and> messages (snd (fold (attachFile now mid cid) xs acc)) = messages (snd acc)
   \<and> profiles (snd (fold (attachFile now mid cid) xs acc)) = profiles (snd acc)"
  by (induction xs arbitrary: acc) (simp_all add: attachFile_def Let_def)

lemma sendMessage_memberships: "memberships (snd (sendMessage now rand input s)) = memberships s"
  by (simp add: sendMessage_def Let_def fold_attachFile_frame split: option.split)

lemma createProfile_memberships:
  "memberships (snd (createProfile now rand name s)) = memberships s"
  by (simp add: createProfile_def Let_def)

lemma leaveGroup_oneActivePerPair:
  assumes "oneActivePerPair s"
  shows "oneActivePerPair (leaveGroup now rand chatId profileId s)"
proof (cases "find (\<lambda>m. mProfileId m = profileId \<and> leftAt m = None)
                (getMembershipsByChat chatId s)")
  case None
  with assms show ?thesis by (simp add: leaveGroup_def)
next
  case (Some active)
  have "distinct (activePairs (put mId (active\<lparr>leftAt := Some now\<rparr>) (memberships s)))"
    using assms unfolding oneActivePerPair_def
    by (intro distinct_activePairs_put_left) simp_all
  with Some show ?thesis
    by (simp add: leaveGroup_def Let_def oneActivePerPair_def)
qed

lemma fold_addMemberStep_distinct:
  assumes "distinct ids"
    and "distinct (activePairs (memberships s))"
    and "\<forall>p \<in> set ids. p \<notin> A \<longrightarrow> (chatId, p) \<notin> set (activePairs (memberships s))"
  shows "distinct (activePairs (memberships
           (snd (fold (addMemberStep now rand chatId actor A names) ids (k, s)))))"
  using assms
proof (induction ids arbitrary: k s)
  case Nil
  then show ?case by simp
next
  case (Cons p ids)
  show ?case
  proof (cases "p \<in> A")
    case True
    then have "addMemberStep now rand chatId actor A names p (k, s) = (k, s)"
      by (simp add: addMemberStep_def)
    with Cons.IH [of s k] Cons.prems show ?thesis by simp
  next
    case False
    define m where "m = \<lparr>mId = createId ''membership'' (rand k), mChatId = chatId,
                mProfileId = p, role = Member, joinedAt = now, leftAt = None\<rparr>"
    obtain s' where step: "addMemberStep now rand chatId actor A names p (k, s) = (k + 2, s')"
      and ms: "memberships s' = put mId m (memberships s)"
      using False by (simp add: addMemberStep_def Let_def m_def)
    from False Cons.prems(3) have fresh: "(mChatId m, mProfileId m) \<notin> set (activePairs (memberships s))"
      by (simp add: m_def)
    with Cons.prems(2) have d: "distinct (activePairs (memberships s'))"
      unfolding ms by (intro distinct_activePairs_put_new)
    have "\<forall>q \<in> set ids. q \<notin> A \<longrightarrow> (chatId, q) \<notin> set (activePairs (memberships s'))"
    proof (intro ballI impI)
      fix q assume q: "q \<in> set ids" "q \<notin> A"
      with Cons.prems(1) have "q \<noteq> p" by auto
      moreover from q Cons.prems(3) have "(chatId, q) \<notin> set (activePairs (memberships s))"
        by simp
      ultimately show "(chatId, q) \<notin> set (activePairs (memberships s'))"
        unfolding ms using set_activePairs_put [of m "memberships s"] by (auto simp: m_def)
    qed
    with Cons.IH [of s' "k + 2"] Cons.prems(1) d step show ?thesis
      by simp
  qed
qed

lemma distinct_uniq: "distinct (uniq xs)"
  by (simp add: uniq_def)

lemma set_uniq: "set (uniq xs) = set xs"
  by (simp add: uniq_def)

lemma addGroupMembers_oneActivePerPair:
  assumes "oneActivePerPair s"
  shows "oneActivePerPair (addGroupMembers now rand chatId actor profileIds s)"
proof (cases "length (uniq profileIds) = 0")
  case True
  with assms show ?thesis by (simp add: addGroupMembers_def)
next
  case False
  let ?A = "set (map mProfileId (filter (\<lambda>m. leftAt m = None) (getMembershipsByChat chatId s)))"
  have "\<forall>p \<in> set (uniq profileIds).
          p \<notin> ?A \<longrightarrow> (chatId, p) \<notin> set (activePairs (memberships s))"
    by (force simp: activePairs_def getMembershipsByChat_def)
  with assms distinct_uniq [of profileIds]
  have "distinct (activePairs (memberships (snd (fold (addMemberStep now rand chatId actor ?A
           (mapOf (map (\<lambda>p. (pId p, displayName p)) (getProfiles s))))
           (uniq profileIds) (0, s)))))"
    unfolding oneActivePerPair_def by (intro fold_addMemberStep_distinct)
  with False show ?thesis
    by (simp add: addGroupMembers_def Let_def oneActivePerPair_def)
qed

lemma map_zip_index:
  "map (\<lambda>pi. g (fst pi)) (zip xs [0 ..< length xs]) = map g xs"
proof -
  have "map g (map fst (zip xs [0 ..< length xs])) = map g xs"
    by simp
  then show ?thesis
    by (simp only: map_map comp_def)
qed

lemma createDm_oneActivePerPair:
  assumes "oneActivePerPair s" and "a \<noteq> b"
    and "createId ''chat'' (rand 0) \<notin> mChatId ` set (memberships s)"
  shows "oneActivePerPair (snd (createDm now rand a b s))"
proof (cases "findExistingDm a b s")
  case (Some existing)
  with assms(1) show ?thesis by (simp add: createDm_def)
next
  case None
  let ?cid = "createId ''chat'' (rand 0)"
  let ?m1 = "\<lparr>mId = createId ''membership'' (rand (Suc 0)), mChatId = ?cid, mProfileId = a,
               role = Owner, joinedAt = now, leftAt = None\<rparr>"
  let ?m2 = "\<lparr>mId = createId ''membership'' (rand (Suc 1)), mChatId = ?cid, mProfileId = b,
               role = Member, joinedAt = now, leftAt = None\<rparr>"
  have ms: "memberships (snd (createDm now rand a b s)) = fold (put mId) [?m1, ?m2] (memberships s)"
    using None by (simp add: createDm_def Let_def)
  have fresh: "\<And>p. (?cid, p) \<notin> set (activePairs (memberships s))"
    using assms(3) activePairs_chat by blast
  have "distinct (activePairs (fold (put mId) [?m1, ?m2] (memberships s)))"
    using assms(1,2) fresh unfolding oneActivePerPair_def
    by (intro distinct_activePairs_fold_put) simp_all
  then show ?thesis
    by (simp only: oneActivePerPair_def ms)
qed

lemma createGroup_oneActivePerPair:
  assumes "oneActivePerPair s"
    and "createId ''chat'' (rand 0) \<notin> mChatId ` set (memberships s)"
  shows "oneActivePerPair (snd (createGroup now rand input s))"
proof -
  let ?cid = "createId ''chat'' (rand 0)"
  let ?us = "uniq (ownerProfileId input # memberProfileIds input)"
  let ?mk = "\<lambda>(profileId, index).
                 \<lparr>mId = createId ''membership'' (rand (Suc index)), mChatId = ?cid,
                  mProfileId = profileId,
                  role = (if profileId = ownerProfileId input then Owner else Member),
                  joinedAt = now, leftAt = None\<rparr>"
  let ?news = "map ?mk (zip ?us [0 ..< length ?us])"
  have ms: "memberships (snd (createGroup now rand input s)) = fold (put mId) ?news (memberships s)"
    by (simp add: createGroup_def Let_def)
  have pairs: "map (\<lambda>m. (mChatId m, mProfileId m)) ?news = map (\<lambda>p. (?cid, p)) ?us"
  proof -
    have "map (\<lambda>m. (mChatId m, mProfileId m)) ?news
            = map (\<lambda>pi. (?cid, fst pi)) (zip ?us [0 ..< length ?us])"
      by (simp add: comp_def case_prod_beta)
    then show ?thesis by (simp only: map_zip_index)
  qed
  have d: "distinct (map (\<lambda>m. (mChatId m, mProfileId m)) ?news)"
    unfolding pairs by (simp add: distinct_map distinct_uniq inj_on_def)
  have fresh: "\<forall>m \<in> set ?news. (mChatId m, mProfileId m) \<notin> set (activePairs (memberships s))"
  proof
    fix m assume "m \<in> set ?news"
    then have "mChatId m = ?cid" by auto
    with assms(2) activePairs_chat [of "mChatId m" "mProfileId m" "memberships s"]
    show "(mChatId m, mProfileId m) \<notin> set (activePairs (memberships s))"
      by auto
  qed
  from d fresh assms(1) have "distinct (activePairs (fold (put mId) ?news (memberships s)))"
    unfolding oneActivePerPair_def by (rule distinct_activePairs_fold_put)
  then show ?thesis
    by (simp only: oneActivePerPair_def ms)
qed

lemma fold_addMemberStep_all_active:
  "set ids \<subseteq> A \<Longrightarrow> fold (addMemberStep now rand chatId actor A names) ids ks = ks"
  by (induction ids) (simp_all add: addMemberStep_def)

lemma addGroupMembers_all_active:
  assumes "\<forall>p \<in> set profileIds. canProfileAccessChat p chatId s"
  shows "memberships (addGroupMembers now rand chatId actor profileIds s) = memberships s
       \<and> messages (addGroupMembers now rand chatId actor profileIds s) = messages s"
proof -
  let ?A = "set (map mProfileId (filter (\<lambda>m. leftAt m = None) (getMembershipsByChat chatId s)))"
  from assms have "set (uniq profileIds) \<subseteq> ?A"
    by (force simp: set_uniq canProfileAccessChat_iff getMembershipsByChat_def)
  then show ?thesis
    by (simp add: addGroupMembers_def Let_def fold_addMemberStep_all_active)
qed

lemma reach_invariant:
  assumes "oneActivePerPair s0" and "reach s0 s"
  shows "oneActivePerPair s"
  using assms(2)
proof (induction rule: reach.induct)
  case reach_init
  from assms(1) show ?case .
next
  case (reach_createProfile s now rand name)
  then show ?case by (simp add: oneActivePerPair_def createProfile_memberships)
next
  case (reach_createDm s a b rand now)
  then show ?case by (intro createDm_oneActivePerPair)
next
  case (reach_createGroup s rand now input)
  then show ?case by (intro createGroup_oneActivePerPair)
next
  case (reach_addGroupMembers s now rand chatId actor profileIds)
  then show ?case by (intro addGroupMembers_oneActivePerPair)
next
  case (reach_leaveGroup s now rand chatId profileId)
  then show ?case by (intro leaveGroup_oneActivePerPair)
next
  case (reach_sendMessage s now rand input)
  then show ?case by (simp add: oneActivePerPair_def sendMessage_memberships)
qed

text \<open>
  C4, as the code has it. Starting from a database in which no chat and profile have two
  active memberships, every state reached by \<open>createProfile\<close>, \<open>createDm\<close> for two
  different profiles, \<open>createGroup\<close>, \<open>addGroupMembers\<close>, \<open>leaveGroup\<close> and
  \<open>sendMessage\<close> has at most one active membership for every chat and profile; and
  adding profiles that all have an active membership in the chat leaves the memberships
  as they are.
\<close>

theorem reach_oneActivePerPair:
  assumes "oneActivePerPair s0" and "reach s0 s"
  shows "(\<forall>c p. length (activeMembershipsOf c p s) \<le> 1)
       \<and> (\<forall>now rand c actor ids.
             (\<forall>p \<in> set ids. canProfileAccessChat p c s)
             \<longrightarrow> memberships (addGroupMembers now rand c actor ids s) = memberships s)"
  using reach_invariant [OF assms] oneActivePerPair_length addGroupMembers_all_active
  by blast

lemmas dm_defs = createDm_def findExistingDm_def isExistingDm_def groupBy_def groupStep_def
  getOrEmpty_def Let_def put_def createId_def demoRand_def emptyDb_def

text \<open>
  The direct chat of Alex and Sam, created in the empty database: Alex has one active
  membership in it, and adding Sam again changes no membership.
\<close>

theorem reach_oneActivePerPair_witness:
  "oneActivePerPair emptyDb \<and> reach emptyDb demoDmDb
   \<and> length (activeMembershipsOf ''chat_u'' ''alex'' demoDmDb) \<le> 1
   \<and> canProfileAccessChat ''sam'' ''chat_u'' demoDmDb
   \<and> memberships (addGroupMembers 9 demoRand ''chat_u'' ''alex'' [''sam''] demoDmDb)
       = memberships demoDmDb"
proof -
  have i: "oneActivePerPair emptyDb"
    by (simp add: oneActivePerPair_def activePairs_def emptyDb_def)
  have n: "''alex'' \<noteq> ''sam''" by simp
  have f: "createId ''chat'' (demoRand 0) \<notin> mChatId ` set (memberships emptyDb)"
    by (simp add: emptyDb_def)
  have r: "reach emptyDb demoDmDb"
    unfolding demoDmDb_def
    by (rule reach_createDm [of emptyDb emptyDb "''alex''" "''sam''" demoRand 5,
          OF reach_init n f])
  have a: "\<forall>p \<in> set [''sam'']. canProfileAccessChat p ''chat_u'' demoDmDb"
    by (simp add: canProfileAccessChat_def getMembershipsByChat_def demoDmDb_def dm_defs)
  from reach_oneActivePerPair [OF i r] a
  have "length (activeMembershipsOf ''chat_u'' ''alex'' demoDmDb) \<le> 1"
    and "memberships (addGroupMembers 9 demoRand ''chat_u'' ''alex'' [''sam''] demoDmDb)
       = memberships demoDmDb"
    by blast+
  with i r a show ?thesis by simp
qed

text \<open>
  The invariant as the specification states it, for every call of \<open>createDm\<close>, fails:
  a direct chat of Alex with Alex holds two active memberships of Alex.
\<close>

theorem createDm_self_counterexample:
  "length (activeMembershipsOf ''chat_u'' ''alex''
             (snd (createDm 5 demoRand ''alex'' ''alex'' emptyDb))) = 2"
  by (simp add: activeMembershipsOf_def dm_defs)

section \<open>Direct chats\<close>

lemma sort_cong_mset: "mset xs = mset ys \<Longrightarrow> sort xs = sort ys"
  by (rule properties_for_sort) simp_all

lemma isExistingDm_cong:
  assumes "mset (getOrEmpty G (cId c)) = mset (getOrEmpty G' (cId c))"
  shows "isExistingDm a b G c = isExistingDm a b G' c"
proof -
  from assms have "mset (map mProfileId (getOrEmpty G (cId c)))
      = mset (map mProfileId (getOrEmpty G' (cId c)))"
    by (metis mset_map)
  then have "sort (map mProfileId (getOrEmpty G (cId c)))
      = sort (map mProfileId (getOrEmpty G' (cId c)))"
    by (rule sort_cong_mset)
  then show ?thesis
    unfolding isExistingDm_def Let_def by (simp only:)
qed

lemma isExistingDm_pair:
  assumes "cType c = Dm" and "mset (map mProfileId (getOrEmpty G (cId c))) = {#a, b#}"
  shows "isExistingDm a b G c"
proof -
  from assms(2) have "mset (map mProfileId (getOrEmpty G (cId c))) = mset [a, b]"
    by simp
  then have "sort (map mProfileId (getOrEmpty G (cId c))) = sort [a, b]"
    by (rule sort_cong_mset)
  moreover have "length (sort [a, b]) = 2" by simp
  ultimately show ?thesis
    using assms(1) unfolding isExistingDm_def Let_def by (simp only: simp_thms)
qed

lemma mset_put_fresh:
  assumes "mId m \<notin> mId ` set ms"
  shows "mset (put mId m ms) = add_mset m (mset ms)"
proof -
  from assms have "\<forall>x \<in> set ms. mId x \<noteq> mId m"
    by (metis imageI)
  then have "filter (\<lambda>x. mId x \<noteq> mId m) ms = ms"
    by (simp add: filter_id_conv)
  then show ?thesis by (simp add: put_def)
qed

lemma findExistingDm_commute: "findExistingDm b a s = findExistingDm a b s"
proof -
  have "sort [b, a] = sort [a, b]"
    by (rule sort_cong_mset) simp
  then have "isExistingDm b a = isExistingDm a b"
    by (intro ext) (simp only: isExistingDm_def)
  then show ?thesis
    by (simp only: findExistingDm_def)
qed

lemma createDm_found:
  "findExistingDm a b s = Some c \<Longrightarrow> createDm now rand a b s = (c, s)"
  by (simp add: createDm_def)

text \<open>
  C1. One call of \<open>createDm\<close> for two profiles, then a second one (for the same two,
  in either order): the second returns the chat that the first returned, hence the same
  chat id, and leaves the database as the first left it, so it creates no chat and no
  membership. The identifiers drawn by the first call are new: the two membership ids
  differ and are not stored, and no stored membership refers to the chat id.
\<close>

theorem createDm_idempotent:
  assumes "createId ''membership'' (rand 1) \<noteq> createId ''membership'' (rand 2)"
    and "createId ''membership'' (rand 1) \<notin> mId ` set (memberships s)"
    and "createId ''membership'' (rand 2) \<notin> mId ` set (memberships s)"
    and "createId ''chat'' (rand 0) \<notin> mChatId ` set (memberships s)"
  shows "createDm now' rand' a b (snd (createDm now rand a b s)) = createDm now rand a b s
       \<and> createDm now' rand' b a (snd (createDm now rand a b s)) = createDm now rand a b s"
proof (cases "findExistingDm a b s")
  case (Some existing)
  then show ?thesis by (simp add: createDm_found findExistingDm_commute [of b a])
next
  case None
  define cid where "cid = createId ''chat'' (rand 0)"
  define c where "c = \<lparr>cId = cid, cType = Dm, title = None, createdByProfileId = a,
      cCreatedAt = now, updatedAt = now, lastMessageAt = None\<rparr>"
  define m1 where "m1 = \<lparr>mId = createId ''membership'' (rand 1), mChatId = cid,
      mProfileId = a, role = Owner, joinedAt = now, leftAt = None\<rparr>"
  define m2 where "m2 = \<lparr>mId = createId ''membership'' (rand 2), mChatId = cid,
      mProfileId = b, role = Member, joinedAt = now, leftAt = None\<rparr>"
  define s1 where "s1 = s\<lparr>chats := put cId c (chats s),
      memberships := put mId m2 (put mId m1 (memberships s))\<rparr>"
  have first: "createDm now rand a b s = (c, s1)"
    using None by (simp add: createDm_def Let_def s1_def c_def m1_def m2_def cid_def numeral_2_eq_2)
  have ms1: "mset (put mId m1 (memberships s)) = add_mset m1 (mset (memberships s))"
    using assms(2) by (intro mset_put_fresh) (simp add: m1_def)
  have "mId m2 \<notin> mId ` set (put mId m1 (memberships s))"
    using assms(1,3) by (auto simp: set_put m1_def m2_def)
  then have "mset (put mId m2 (put mId m1 (memberships s)))
      = add_mset m2 (mset (put mId m1 (memberships s)))"
    by (rule mset_put_fresh)
  with ms1 have ms: "mset (memberships s1) = {#m1, m2#} + mset (memberships s)"
    by (simp add: s1_def)
  let ?G = "groupBy mChatId (filter (\<lambda>m. leftAt m = None) (memberships s))"
  let ?G1 = "groupBy mChatId (filter (\<lambda>m. leftAt m = None) (memberships s1))"
  have members: "\<And>k. mset (getOrEmpty ?G1 k)
      = (if k = cid then {#m1, m2#} else {#}) + mset (getOrEmpty ?G k)"
    by (simp add: getOrEmpty_groupBy ms m1_def m2_def)
  have old: "\<forall>m \<in> set (memberships s). mChatId m \<noteq> cid"
    using assms(4) unfolding cid_def by (metis imageI)
  then have "getOrEmpty ?G cid = []"
    by (simp add: getOrEmpty_groupBy filter_empty_conv)
  with members [of cid] have "mset (getOrEmpty ?G1 (cId c)) = {#m1, m2#}"
    by (simp add: c_def)
  then have "mset (map mProfileId (getOrEmpty ?G1 (cId c))) = image_mset mProfileId {#m1, m2#}"
    by (simp only: mset_map)
  then have "mset (map mProfileId (getOrEmpty ?G1 (cId c))) = {#a, b#}"
    by (simp add: m1_def m2_def)
  then have here: "isExistingDm a b ?G1 c"
    by (intro isExistingDm_pair) (simp_all add: c_def)
  have others: "\<forall>y \<in> set (chats s1). isExistingDm a b ?G1 y \<longrightarrow> y = c"
  proof (intro ballI impI)
    fix y assume y: "y \<in> set (chats s1)" and p: "isExistingDm a b ?G1 y"
    show "y = c"
    proof (rule ccontr)
      assume "y \<noteq> c"
      with y have y0: "y \<in> set (chats s)" and k: "cId y \<noteq> cid"
        by (auto simp: s1_def set_put c_def)
      from k members [of "cId y"] have "mset (getOrEmpty ?G1 (cId y)) = mset (getOrEmpty ?G (cId y))"
        by simp
      then have "isExistingDm a b ?G1 y = isExistingDm a b ?G y"
        by (rule isExistingDm_cong)
      moreover from None y0 have "\<not> isExistingDm a b ?G y"
        by (simp add: findExistingDm_def Let_def find_None_iff)
      ultimately show False using p by simp
    qed
  qed
  have "c \<in> set (chats s1)"
    by (simp add: s1_def set_put)
  then have "find (isExistingDm a b ?G1) (chats s1) = Some c"
    using here others by (rule find_unique)
  then have "findExistingDm a b s1 = Some c"
    by (simp add: findExistingDm_def Let_def)
  then have "createDm now' rand' a b s1 = (c, s1)" and "createDm now' rand' b a s1 = (c, s1)"
    by (simp_all add: createDm_found findExistingDm_commute [of b a])
  with first show ?thesis by simp
qed

text \<open>
  Alex opens a direct chat with Sam in the empty database, twice: both calls return the
  chat \<open>chat_u\<close>, and the database holds one chat and two memberships.
\<close>

theorem createDm_idempotent_witness:
  "createId ''membership'' (demoRand 1) \<noteq> createId ''membership'' (demoRand 2)
   \<and> createDm 9 demoRand ''alex'' ''sam'' demoDmDb = createDm 5 demoRand ''alex'' ''sam'' emptyDb
   \<and> cId (fst (createDm 9 demoRand ''alex'' ''sam'' demoDmDb)) = ''chat_u''
   \<and> length (chats demoDmDb) = 1 \<and> length (memberships demoDmDb) = 2"
proof -
  have h1: "createId ''membership'' (demoRand 1) \<noteq> createId ''membership'' (demoRand 2)"
    by (simp add: createId_def demoRand_def eval_nat_numeral)
  have h2: "createId ''membership'' (demoRand 1) \<notin> mId ` set (memberships emptyDb)"
    and h3: "createId ''membership'' (demoRand 2) \<notin> mId ` set (memberships emptyDb)"
    and h4: "createId ''chat'' (demoRand 0) \<notin> mChatId ` set (memberships emptyDb)"
    by (simp_all add: emptyDb_def)
  have e: "createDm 9 demoRand ''alex'' ''sam'' demoDmDb = createDm 5 demoRand ''alex'' ''sam'' emptyDb"
    unfolding demoDmDb_def using createDm_idempotent [OF h1 h2 h3 h4] by blast
  have k: "cId (fst (createDm 5 demoRand ''alex'' ''sam'' emptyDb)) = ''chat_u''"
    by (simp add: dm_defs)
  have n: "length (chats demoDmDb) = 1 \<and> length (memberships demoDmDb) = 2"
    by (simp add: demoDmDb_def dm_defs)
  from h1 e k n show ?thesis by simp
qed

section \<open>Attachments sent and read back\<close>

lemma createId_inject: "(createId p u = createId p v) = (u = v)"
  by (simp add: createId_def)

lemma attachFile_snd:
  "snd (attachFile now mid cid fu acc)
     = (snd acc)\<lparr>attachmentsMeta :=
           put aId (newAttachmentMeta now mid cid (fst fu) (createId ''att'' (snd fu)))
             (attachmentsMeta (snd acc)),
         attachmentsBlob :=
           put fst (''blob_'' @ createId ''att'' (snd fu), fst fu) (attachmentsBlob (snd acc))\<rparr>"
  by (simp add: attachFile_def Let_def newAttachmentMeta_def)

lemma getBlob_attachFile:
  "getBlob k (snd (attachFile now mid cid fu acc))
     = (if k = ''blob_'' @ createId ''att'' (snd fu) then Some (fst fu) else getBlob k (snd acc))"
  by (simp add: attachFile_snd getBlob_def getByKey_put)

lemma getBlob_fold_attachFile:
  assumes "distinct (map snd fus)" and "(f, u) \<in> set fus"
  shows "getBlob (''blob_'' @ createId ''att'' u) (snd (fold (attachFile now mid cid) fus acc))
           = Some f"
  using assms
proof (induction fus rule: rev_induct)
  case Nil
  then show ?case by simp
next
  case (snoc fu fus)
  show ?case
  proof (cases "u = snd fu")
    case True
    with snoc.prems have "(f, u) = fu"
      by (cases fu) (auto simp: image_iff)
    then show ?thesis
      by (auto simp: getBlob_attachFile)
  next
    case False
    with snoc.prems have "(f, u) \<in> set fus" and "distinct (map snd fus)"
      by auto
    with snoc.IH False show ?thesis
      by (simp add: getBlob_attachFile createId_inject)
  qed
qed

lemma mset_metas_fold_attachFile:
  assumes "distinct (map snd fus)"
  shows "mset (attachmentsMeta (snd (fold (attachFile now mid cid) fus acc)))
     = mset (map (\<lambda>fu. newAttachmentMeta now mid cid (fst fu) (createId ''att'' (snd fu))) fus)
       + filter_mset (\<lambda>x. aId x \<notin> (\<lambda>fu. createId ''att'' (snd fu)) ` set fus)
           (mset (attachmentsMeta (snd acc)))"
  using assms
proof (induction fus arbitrary: acc)
  case Nil
  then show ?case by simp
next
  case (Cons fu fus)
  let ?meta = "newAttachmentMeta now mid cid (fst fu) (createId ''att'' (snd fu))"
  let ?acc = "attachFile now mid cid fu acc"
  have new: "createId ''att'' (snd fu) \<notin> (\<lambda>fu. createId ''att'' (snd fu)) ` set fus"
    using Cons.prems by (auto simp: createId_inject image_iff)
  have one: "mset (attachmentsMeta (snd ?acc))
      = add_mset ?meta (filter_mset (\<lambda>x. aId x \<noteq> createId ''att'' (snd fu))
          (mset (attachmentsMeta (snd acc))))"
    by (simp add: attachFile_snd mset_put newAttachmentMeta_def)
  have "mset (attachmentsMeta (snd (fold (attachFile now mid cid) (fu # fus) acc)))
      = mset (map (\<lambda>fu. newAttachmentMeta now mid cid (fst fu) (createId ''att'' (snd fu))) fus)
        + filter_mset (\<lambda>x. aId x \<notin> (\<lambda>fu. createId ''att'' (snd fu)) ` set fus)
            (mset (attachmentsMeta (snd ?acc)))"
    using Cons.IH [of ?acc] Cons.prems by simp
  also have "filter_mset (\<lambda>x. aId x \<notin> (\<lambda>fu. createId ''att'' (snd fu)) ` set fus)
            (mset (attachmentsMeta (snd ?acc)))
      = add_mset ?meta
          (filter_mset (\<lambda>x. aId x \<notin> (\<lambda>fu. createId ''att'' (snd fu)) ` set (fu # fus))
             (mset (attachmentsMeta (snd acc))))"
  proof -
    have "aId ?meta = createId ''att'' (snd fu)"
      by (simp add: newAttachmentMeta_def)
    with new show ?thesis
      unfolding one
      by (auto simp: filter_filter_mset intro!: filter_mset_cong)
  qed
  finally show ?case by simp
qed

lemma attachmentView_withBlob:
  "attachmentView (withBlob meta b) = (fileName meta, mimeType meta, sizeBytes meta, b)"
  by (simp add: attachmentView_def withBlob_def attachmentMeta.defs attachmentWithBlob.defs)

lemma resolveAttachments_all_present:
  assumes "\<forall>meta \<in> set metas. getBlob (blobKey meta) s \<noteq> None"
  shows "map attachmentView (resolveAttachments s metas)
     = map (\<lambda>meta. (fileName meta, mimeType meta, sizeBytes meta, the (getBlob (blobKey meta) s)))
         metas"
  using assms
  by (induction metas) (auto simp: resolveAttachments_Cons attachmentView_withBlob)

lemma resolveAttachments_blobs_cong:
  "attachmentsBlob s = attachmentsBlob t \<Longrightarrow> resolveAttachments s = resolveAttachments t"
  by (intro ext) (simp add: resolveAttachments_def getBlob_def)

lemma sendMessage_Inr:
  assumes "sendMessage now rand input s = (Inr m, s')"
  shows "msgId m = createId ''msg'' (rand 0) \<and> msgChatId m = inChatId input
    \<and> messages s' = put msgId m (messages s)
    \<and> attachmentsMeta s' = attachmentsMeta (snd (fold
          (attachFile now (createId ''msg'' (rand 0)) (inChatId input))
          (zip (inFiles input) (map rand [1 ..< Suc (length (inFiles input))])) ([], s)))
    \<and> attachmentsBlob s' = attachmentsBlob (snd (fold
          (attachFile now (createId ''msg'' (rand 0)) (inChatId input))
          (zip (inFiles input) (map rand [1 ..< Suc (length (inFiles input))])) ([], s)))"
  using assms
  by (auto simp: sendMessage_def Let_def fold_attachFile_frame split: if_splits option.splits)

text \<open>
  C9, as the code has it. After a successful \<open>sendMessage\<close>, \<open>getMessages\<close> for the
  chat returns the message sent, and its attachments are, one for one, the files of the
  input: each has the name and the size of its file, the file itself as its blob, and
  the MIME type of the file, or \<open>application/octet-stream\<close> when that is empty. The
  identifiers drawn are new: those of the attachments differ from one another, and no
  stored attachment refers to the identifier of the message.
\<close>

theorem sendMessage_roundtrip:
  assumes sent: "sendMessage now rand input s = (Inr m, s')"
    and ids: "distinct (map rand [1 ..< Suc (length (inFiles input))])"
    and fresh: "createId ''msg'' (rand 0) \<notin> aMessageId ` set (attachmentsMeta s)"
  shows "\<exists>mw \<in> set (getMessages (inChatId input) s').
           message.truncate mw = m
         \<and> mset (map attachmentView (attachments mw)) = mset (map fileView (inFiles input))"
proof -
  define mid where "mid = createId ''msg'' (rand 0)"
  define cid where "cid = inChatId input"
  define fus where "fus = zip (inFiles input) (map rand [1 ..< Suc (length (inFiles input))])"
  define s1 where "s1 = snd (fold (attachFile now mid cid) fus ([], s))"
  define new where "new = (\<lambda>fu. newAttachmentMeta now mid cid (fst fu) (createId ''att'' (snd fu)))"
  define metas where "metas = filter (\<lambda>meta. aMessageId meta = mid)
      (filter (\<lambda>meta. aChatId meta = cid) (attachmentsMeta s'))"
  from sendMessage_Inr [OF sent]
  have m: "msgId m = mid" "msgChatId m = cid"
    and msgs: "messages s' = put msgId m (messages s)"
    and am: "attachmentsMeta s' = attachmentsMeta s1"
    and ab: "attachmentsBlob s' = attachmentsBlob s1"
    by (simp_all add: mid_def cid_def fus_def s1_def)
  have files: "map fst fus = inFiles input"
    by (simp add: fus_def del: upt_Suc)
  have "map snd fus = map rand [1 ..< Suc (length (inFiles input))]"
    by (simp add: fus_def del: upt_Suc)
  with ids have d: "distinct (map snd fus)"
    by (simp only:)
  have blobs: "\<And>fu. fu \<in> set fus \<Longrightarrow> getBlob (blobKey (new fu)) s' = Some (fst fu)"
  proof -
    fix fu assume "fu \<in> set fus"
    then have "(fst fu, snd fu) \<in> set fus" by simp
    with d have "getBlob (''blob_'' @ createId ''att'' (snd fu)) s1 = Some (fst fu)"
      unfolding s1_def by (rule getBlob_fold_attachFile)
    then show "getBlob (blobKey (new fu)) s' = Some (fst fu)"
      by (simp add: new_def newAttachmentMeta_def getBlob_def ab)
  qed
  have old: "\<forall>x \<in> set (attachmentsMeta s). aMessageId x \<noteq> mid"
    using fresh unfolding mid_def by (metis imageI)
  have "mset (attachmentsMeta s1)
      = mset (map new fus)
        + filter_mset (\<lambda>x. aId x \<notin> (\<lambda>fu. createId ''att'' (snd fu)) ` set fus)
            (mset (attachmentsMeta s))"
    unfolding s1_def new_def using mset_metas_fold_attachFile [OF d] by simp
  moreover have "mset metas
      = filter_mset (\<lambda>x. aChatId x = cid \<and> aMessageId x = mid) (mset (attachmentsMeta s1))"
    by (simp add: metas_def am)
  moreover have "filter_mset (\<lambda>x. aChatId x = cid \<and> aMessageId x = mid) (mset (map new fus))
      = mset (map new fus)"
    by (rule filter_mset_eq_conv [THEN iffD2]) (simp add: new_def newAttachmentMeta_def)
  moreover have "filter_mset (\<lambda>x. aChatId x = cid \<and> aMessageId x = mid)
      (filter_mset (\<lambda>x. aId x \<notin> (\<lambda>fu. createId ''att'' (snd fu)) ` set fus)
         (mset (attachmentsMeta s))) = {#}"
    using old by simp
  ultimately have mm: "mset metas = mset (map new fus)"
    by (simp only: filter_union_mset add_0_right)
  then have "set metas = set (map new fus)"
    by (rule mset_eq_setD)
  then have present: "\<forall>meta \<in> set metas. getBlob (blobKey meta) s' \<noteq> None"
    using blobs by auto
  let ?V = "\<lambda>meta. (fileName meta, mimeType meta, sizeBytes meta, the (getBlob (blobKey meta) s'))"
  have "mset (map attachmentView (resolveAttachments s' metas)) = image_mset ?V (mset metas)"
    by (simp add: resolveAttachments_all_present [OF present])
  also have "\<dots> = image_mset ?V (mset (map new fus))"
    by (simp only: mm)
  also have "\<dots> = mset (map ?V (map new fus))"
    by (simp only: mset_map)
  also have "map ?V (map new fus) = map (\<lambda>fu. fileView (fst fu)) fus"
    unfolding map_map comp_def
  proof (rule map_cong [OF refl])
    fix fu assume "fu \<in> set fus"
    then have "the (getBlob (blobKey (new fu)) s') = fst fu"
      by (simp add: blobs)
    then show "?V (new fu) = fileView (fst fu)"
      by (simp add: new_def newAttachmentMeta_def fileView_def)
  qed
  also have "mset (map (\<lambda>fu. fileView (fst fu)) fus) = mset (map fileView (map fst fus))"
    by (simp add: comp_def)
  finally have views: "mset (map attachmentView (resolveAttachments s' metas))
      = mset (map fileView (inFiles input))"
    by (simp only: files)
  let ?mw = "withAttachments m (resolveAttachments s' metas)"
  define g where "g = (\<lambda>x. withAttachments x (resolveAttachments s'
      (filter (\<lambda>y. aMessageId y = msgId x)
         (filter (\<lambda>meta. aChatId meta = cid) (attachmentsMeta s')))))"
  have gm: "getMessages cid s'
      = map g (sortBy byCreatedAt (filter (\<lambda>x. msgChatId x = cid) (messages s')))"
    by (simp add: getMessages_def Let_def getOrEmpty_groupBy g_def)
  have "m \<in> set (sortBy byCreatedAt (filter (\<lambda>x. msgChatId x = cid) (messages s')))"
    using m(2) by (simp add: set_sortBy msgs set_put)
  then have "g m \<in> set (getMessages cid s')"
    unfolding gm by simp
  moreover have "g m = ?mw"
    by (simp add: g_def metas_def m(1))
  ultimately have "?mw \<in> set (getMessages cid s')"
    by simp
  moreover have "message.truncate ?mw = m" by simp
  moreover have "mset (map attachmentView (attachments ?mw)) = mset (map fileView (inFiles input))"
    using views by simp
  ultimately show ?thesis
    unfolding cid_def by blast
qed

lemma mimeType_withBlob [simp]: "mimeType (withBlob meta b) = mimeType meta"
  by (simp add: withBlob_def attachmentMeta.defs attachmentWithBlob.defs)

lemma demoRand_simps:
  "demoRand 0 = ''u''" "demoRand (Suc 0) = ''uu''" "demoRand 1 = ''uu''" "demoRand 2 = ''uuu''"
  "demoRand (Suc (Suc 0)) = ''uuu''"
  by (simp_all add: demoRand_def eval_nat_numeral)

lemmas demo_send_defs = demoDb_def demoImage_def demoChat_def demoOld_def demoMember_def
  demoUntyped_def demoTwoInput_def demoUntypedInput_def demoRand_simps

text \<open>
  Two files, a PNG image and a file without MIME type, sent into the sample group and
  read back.
\<close>

theorem sendMessage_roundtrip_witness:
  "sendMessage 20 demoRand demoTwoInput demoDb
     = (Inr (projr (fst (sendMessage 20 demoRand demoTwoInput demoDb))),
        snd (sendMessage 20 demoRand demoTwoInput demoDb))
   \<and> mset (map attachmentView (attachments
         (hd (getMessages ''chat_g'' (snd (sendMessage 20 demoRand demoTwoInput demoDb))))))
       = mset (map fileView [demoImage, demoUntyped])"
proof -
  let ?s = "snd (sendMessage 20 demoRand demoTwoInput demoDb)"
  have h: "sendMessage 20 demoRand demoTwoInput demoDb
     = (Inr (projr (fst (sendMessage 20 demoRand demoTwoInput demoDb))), ?s)"
    by (simp add: run_defs demo_send_defs)
  have i: "distinct (map demoRand [1 ..< Suc (length (inFiles demoTwoInput))])"
    by (simp add: demoTwoInput_def demoRand_simps)
  have f: "createId ''msg'' (demoRand 0) \<notin> aMessageId ` set (attachmentsMeta demoDb)"
    by (simp add: demoDb_def)
  have c: "inChatId demoTwoInput = ''chat_g''" and fs: "inFiles demoTwoInput = [demoImage, demoUntyped]"
    by (simp_all add: demoTwoInput_def)
  from sendMessage_roundtrip [OF h i f] obtain mw
    where mw: "mw \<in> set (getMessages ''chat_g'' ?s)"
      and v: "mset (map attachmentView (attachments mw)) = mset (map fileView [demoImage, demoUntyped])"
    unfolding c fs by blast
  have "length (getMessages ''chat_g'' ?s) = 1"
    by (simp add: getMessages_def Let_def sortBy_def byCreatedAt_def run_defs demo_send_defs)
  then obtain x where "getMessages ''chat_g'' ?s = [x]"
    by (cases "getMessages ''chat_g'' ?s") auto
  with mw have "hd (getMessages ''chat_g'' ?s) = mw" by simp
  with h v show ?thesis by simp
qed

text \<open>
  The claim as the specification states it fails for a file whose MIME type is empty: the
  send succeeds, and the attachment read back has the type \<open>application/octet-stream\<close>.
\<close>

theorem sendMessage_mime_counterexample:
  "\<not> isl (fst (sendMessage 20 demoRand demoUntypedInput demoDb))
   \<and> fType demoUntyped = []
   \<and> map mimeType (attachments
        (hd (getMessages ''chat_g'' (snd (sendMessage 20 demoRand demoUntypedInput demoDb)))))
       = [''application/octet-stream'']"
  by (simp add: run_defs messages_defs demo_send_defs)

end
